theory Spec2Isabelle
  imports Complex_Main
begin

section \<open>Numbers, errors and the numpy operations used by tools.py\<close>

text \<open>
  A numpy float64 is modelled by its value: a finite value is an exact real (rounding and
  overflow are not modelled, and there is one zero), and the three special values follow
  the IEEE rules that numpy applies. Time stamps are finite reals throughout: the chunk
  times \<open>star.time[m]\<close> exclude the not-a-number mask.
\<close>

datatype npfloat = Fin real | PInf | NInf | NaN

datatype py_error = IndexError | ValueError | OverflowError | LinAlgError | IOError

type_synonym vec = "npfloat list"
type_synonym matrix = "npfloat list list"

fun isfinite :: "npfloat \<Rightarrow> bool" where
  "isfinite (Fin _) = True"
| "isfinite _ = False"

fun isnan :: "npfloat \<Rightarrow> bool" where
  "isnan NaN = True"
| "isnan _ = False"

fun fneg :: "npfloat \<Rightarrow> npfloat" where
  "fneg (Fin a) = Fin (- a)"
| "fneg PInf = NInf"
| "fneg NInf = PInf"
| "fneg NaN = NaN"

fun fadd :: "npfloat \<Rightarrow> npfloat \<Rightarrow> npfloat" where
  "fadd (Fin a) (Fin b) = Fin (a + b)"
| "fadd NaN _ = NaN"
| "fadd _ NaN = NaN"
| "fadd PInf NInf = NaN"
| "fadd NInf PInf = NaN"
| "fadd PInf _ = PInf"
| "fadd _ PInf = PInf"
| "fadd NInf _ = NInf"
| "fadd _ NInf = NInf"

definition fsub :: "npfloat \<Rightarrow> npfloat \<Rightarrow> npfloat" where
  "fsub a b = fadd a (fneg b)"

fun fmul :: "npfloat \<Rightarrow> npfloat \<Rightarrow> npfloat" where
  "fmul (Fin a) (Fin b) = Fin (a * b)"
| "fmul NaN _ = NaN"
| "fmul _ NaN = NaN"
| "fmul (Fin a) PInf = (if a = 0 then NaN else if 0 < a then PInf else NInf)"
| "fmul (Fin a) NInf = (if a = 0 then NaN else if 0 < a then NInf else PInf)"
| "fmul PInf (Fin b) = (if b = 0 then NaN else if 0 < b then PInf else NInf)"
| "fmul NInf (Fin b) = (if b = 0 then NaN else if 0 < b then NInf else PInf)"
| "fmul PInf PInf = PInf"
| "fmul PInf NInf = NInf"
| "fmul NInf PInf = NInf"
| "fmul NInf NInf = PInf"

text \<open>
  numpy's scalar division does not raise on a zero divisor: it warns and returns an
  infinity, or not-a-number for \<open>0 / 0\<close>.
\<close>

fun fdiv :: "npfloat \<Rightarrow> npfloat \<Rightarrow> npfloat" where
  "fdiv (Fin a) (Fin b) =
     (if b = 0 then (if a = 0 then NaN else if 0 < a then PInf else NInf)
      else Fin (a / b))"
| "fdiv NaN _ = NaN"
| "fdiv _ NaN = NaN"
| "fdiv (Fin a) _ = Fin 0"
| "fdiv PInf (Fin b) = (if 0 \<le> b then PInf else NInf)"
| "fdiv NInf (Fin b) = (if 0 \<le> b then NInf else PInf)"
| "fdiv PInf PInf = NaN"
| "fdiv PInf NInf = NaN"
| "fdiv NInf PInf = NaN"
| "fdiv NInf NInf = NaN"

fun fabs :: "npfloat \<Rightarrow> npfloat" where
  "fabs (Fin a) = Fin \<bar>a\<bar>"
| "fabs PInf = PInf"
| "fabs NInf = PInf"
| "fabs NaN = NaN"

text \<open>Comparisons with not-a-number are false.\<close>

fun fless :: "npfloat \<Rightarrow> npfloat \<Rightarrow> bool" where
  "fless (Fin a) (Fin b) = (a < b)"
| "fless NaN _ = False"
| "fless _ NaN = False"
| "fless NInf NInf = False"
| "fless NInf _ = True"
| "fless _ NInf = False"
| "fless PInf _ = False"
| "fless _ PInf = True"

definition fle :: "npfloat \<Rightarrow> npfloat \<Rightarrow> bool" where
  "fle a b = (\<not> isnan a \<and> \<not> isnan b \<and> \<not> fless b a)"

text \<open>Sequencing of fallible steps: the first error aborts, as a raised exception does.\<close>

definition ebind :: "py_error + 'a \<Rightarrow> ('a \<Rightarrow> py_error + 'b) \<Rightarrow> py_error + 'b" where
  "ebind m f = (case m of Inl e \<Rightarrow> Inl e | Inr x \<Rightarrow> f x)"

text \<open>
  The inner product of two arrays of the same length, and \<open>np.dot\<close> of two
  one-dimensional arrays: the lengths must agree.
\<close>

definition vdot :: "vec \<Rightarrow> vec \<Rightarrow> npfloat" where
  "vdot xs ys = foldl fadd (Fin 0) (map2 fmul xs ys)"

definition np_dot :: "vec \<Rightarrow> vec \<Rightarrow> py_error + npfloat" where
  "np_dot xs ys = (if length xs = length ys then Inr (vdot xs ys) else Inl ValueError)"

text \<open>
  An elementwise operation on two one-dimensional arrays, with numpy's broadcasting of
  an array of length one.
\<close>

definition np_binop ::
  "(npfloat \<Rightarrow> npfloat \<Rightarrow> npfloat) \<Rightarrow> vec \<Rightarrow> vec \<Rightarrow> py_error + vec" where
  "np_binop f xs ys =
     (if length xs = length ys then Inr (map2 f xs ys)
      else if length xs = 1 then Inr (map (f (hd xs)) ys)
      else if length ys = 1 then Inr (map (\<lambda>x. f x (hd ys)) xs)
      else Inl ValueError)"

text \<open>
  \<open>np.delete(xs, inds)\<close>: the entries at the given positions are removed; a position
  outside the array raises.
\<close>

definition np_delete :: "'a list \<Rightarrow> nat list \<Rightarrow> py_error + 'a list" where
  "np_delete xs inds =
     (if \<forall>i \<in> set inds. i < length xs
      then Inr (map (\<lambda>i. xs ! i) (filter (\<lambda>i. i \<notin> set inds) [0..<length xs]))
      else Inl IndexError)"

text \<open>\<open>xs[m]\<close> with an index array \<open>m\<close>.\<close>

definition np_take :: "'a list \<Rightarrow> nat list \<Rightarrow> py_error + 'a list" where
  "np_take xs m =
     (if \<forall>i \<in> set m. i < length xs then Inr (map (\<lambda>i. xs ! i) m) else Inl IndexError)"

text \<open>\<open>xs[i]\<close> with an integer: a negative index counts from the end.\<close>

definition np_getitem :: "'a list \<Rightarrow> int \<Rightarrow> py_error + 'a" where
  "np_getitem xs i =
     (let n = int (length xs) in
      if 0 \<le> i \<and> i < n then Inr (xs ! nat i)
      else if - n \<le> i \<and> i < 0 then Inr (xs ! nat (n + i))
      else Inl IndexError)"

text \<open>Insertion sort by \<open>fle\<close>, and \<open>np.nanmedian\<close> of a one-dimensional array.\<close>

fun finsert :: "npfloat \<Rightarrow> vec \<Rightarrow> vec" where
  "finsert x [] = [x]"
| "finsert x (y # ys) = (if fle x y then x # y # ys else y # finsert x ys)"

definition fsort :: "vec \<Rightarrow> vec" where
  "fsort xs = foldr finsert xs []"

definition nanmedian :: "vec \<Rightarrow> npfloat" where
  "nanmedian xs =
     (let s = fsort (filter (\<lambda>x. \<not> isnan x) xs); n = length s in
      if n = 0 then NaN
      else if odd n then s ! (n div 2)
      else fdiv (fadd (s ! (n div 2 - 1)) (s ! (n div 2))) (Fin 2))"

text \<open>The median of finite reals; \<open>None\<close> is numpy's not-a-number for an empty array.\<close>

definition median :: "real list \<Rightarrow> real option" where
  "median xs =
     (let s = sort xs; n = length s in
      if n = 0 then None
      else if odd n then Some (s ! (n div 2))
      else Some ((s ! (n div 2 - 1) + s ! (n div 2)) / 2))"

fun diff :: "real list \<Rightarrow> real list" where
  "diff (x # y # xs) = (y - x) # diff (y # xs)"
| "diff _ = []"

text \<open>
  \<open>np.arange(start, stop, step)\<close> on finite values: \<open>ceil((stop - start) / step)\<close>
  entries \<open>start + i * step\<close>, none when that count is not positive. A zero step raises.
\<close>

definition arange :: "real \<Rightarrow> real \<Rightarrow> real \<Rightarrow> py_error + real list" where
  "arange start stop step =
     (if step = 0 then Inl ValueError
      else Inr (map (\<lambda>i. start + real i * step) [0..<nat \<lceil>(stop - start) / step\<rceil>]))"

text \<open>Python's \<open>int(x)\<close> truncates toward zero; \<open>round(x)\<close> rounds halves to even.\<close>

definition py_int :: "real \<Rightarrow> int" where
  "py_int x = (if 0 \<le> x then \<lfloor>x\<rfloor> else \<lceil>x\<rceil>)"

definition py_round :: "real \<Rightarrow> int" where
  "py_round x =
     (let f = \<lfloor>x\<rfloor>; d = x - of_int f in
      if d < 1 / 2 then f
      else if 1 / 2 < d then f + 1
      else if even f then f else f + 1)"

fun emap :: "('a \<Rightarrow> py_error + 'b) \<Rightarrow> 'a list \<Rightarrow> py_error + 'b list" where
  "emap f [] = Inr []"
| "emap f (x # xs) = ebind (f x) (\<lambda>y. ebind (emap f xs) (\<lambda>ys. Inr (y # ys)))"

text \<open>
  A quotient of two finite values handed to \<open>int\<close> or \<open>round\<close>: on a zero divisor
  numpy yields not-a-number or an infinity, and the conversion to an integer raises.
\<close>

definition div_to_int :: "(real \<Rightarrow> int) \<Rightarrow> real \<Rightarrow> real \<Rightarrow> py_error + int" where
  "div_to_int conv x y =
     (if y = 0 then (if x = 0 then Inl ValueError else Inl OverflowError)
      else Inr (conv (x / y)))"

section \<open>The light curve and its external collaborators\<close>

record star =
  ID :: int
  time :: "real list"
  flux :: vec
  fraw :: vec
  fraw_err :: vec
  nanmask :: "nat list"
  badmask :: "nat list"
  outmask :: "nat list"
  transitmask :: "nat list"
  breakpoints :: "nat list"
  kernel :: string
  kernel_params :: vec
  pld_order :: nat
  lam :: matrix

text \<open>
  The functions that tools.py imports from everest and scipy, and the methods of the
  Everest class it calls, are parameters of the model. \<open>cho_factor\<close> raises on a matrix
  that is not positive definite; \<open>cho_solve\<close> raises on a right-hand side of the wrong
  length or with non-finite entries.
\<close>

record providers =
  SavGol :: "vec \<Rightarrow> vec"
  get_masked_chunk :: "star \<Rightarrow> nat \<Rightarrow> nat list"
  GetCovariance :: "string \<Rightarrow> vec \<Rightarrow> real list \<Rightarrow> vec \<Rightarrow> matrix"
  X :: "star \<Rightarrow> nat \<Rightarrow> nat list \<Rightarrow> matrix"
  cho_factor :: "matrix \<Rightarrow> py_error + matrix"
  cho_solve :: "matrix \<Rightarrow> vec \<Rightarrow> py_error + vec"
  TransitShape :: "real list \<Rightarrow> real \<Rightarrow> vec"

section \<open>Heatmap\<close>

text \<open>The innermost loop of Heatmap: \<open>for t in times\<close>, accumulating into one cell.\<close>

fun fold_cell :: "real list \<Rightarrow> real option \<Rightarrow> vec \<Rightarrow> real list \<Rightarrow> npfloat \<Rightarrow> py_error + npfloat" where
  "fold_cell tm dt delta_chisq [] z = Inr z"
| "fold_cell tm dt delta_chisq (t # ts) z =
     (case dt of
        None \<Rightarrow> Inl ValueError
      | Some d \<Rightarrow>
          ebind (div_to_int py_round (t - hd tm) d) (\<lambda>ind.
          ebind (np_getitem delta_chisq ind) (\<lambda>v.
          fold_cell tm dt delta_chisq ts (fadd z v))))"

text \<open>The fold times of one trial period and phase: \<open>np.arange(t0, tf, period)\<close>.\<close>

definition fold_times :: "real list \<Rightarrow> real \<Rightarrow> real \<Rightarrow> py_error + real list" where
  "fold_times tm period phase =
     (if tm = [] then Inl IndexError
      else
        let t0 = hd tm + phase * period in
        ebind (div_to_int py_int (last tm - t0) period) (\<lambda>n.
        let tf = t0 + period * of_int n in
        arange t0 tf period))"

definition heat_cell :: "real list \<Rightarrow> real option \<Rightarrow> vec \<Rightarrow> real \<Rightarrow> real \<Rightarrow> py_error + npfloat" where
  "heat_cell tm dt delta_chisq period phase =
     ebind (fold_times tm period phase) (\<lambda>times.
     fold_cell tm dt delta_chisq times (Fin 0))"

definition Heatmap :: "real list \<Rightarrow> vec \<Rightarrow> real list \<Rightarrow> real list \<Rightarrow> py_error + matrix" where
  "Heatmap tm delta_chisq periods phases =
     (let dt = median (diff tm) in
      emap (\<lambda>period. emap (\<lambda>phase. heat_cell tm dt delta_chisq period phase) phases) periods)"

text \<open>
  The fold times as the specification words them, for comparison with \<open>fold_times\<close>:
  every \<open>t0 + k * period\<close> strictly less than the last time.
\<close>

definition spec_fold_times :: "real list \<Rightarrow> real \<Rightarrow> real \<Rightarrow> real list" where
  "spec_fold_times tm period phase =
     (let t0 = hd tm + phase * period in
      map (\<lambda>k. t0 + real k * period) [0..<nat \<lceil>(last tm - t0) / period\<rceil>])"

section \<open>MaskOutliers\<close>

text \<open>\<open>np.argmax(xs == v)\<close>: the first position holding \<open>v\<close>, and 0 when there is none.\<close>

definition argmax_eq :: "real list \<Rightarrow> real \<Rightarrow> nat" where
  "argmax_eq xs v = (if v \<in> set xs then length (takeWhile (\<lambda>x. x \<noteq> v) xs) else 0)"

definition MaskOutliers :: "providers \<Rightarrow> star \<Rightarrow> npfloat \<Rightarrow> npfloat \<Rightarrow> py_error + star" where
  "MaskOutliers p s pos_tol neg_tol =
     ebind (np_delete (time s) (nanmask s @ badmask s)) (\<lambda>t.
     ebind (np_delete (flux s) (nanmask s @ badmask s)) (\<lambda>f0.
     let f = SavGol p f0;
         med = nanmedian f;
         MAD = fmul (Fin 1.4826) (nanmedian (map (\<lambda>x. fabs (fsub x med)) f));
         pos = filter (\<lambda>i. fless (fadd med (fmul pos_tol MAD)) (f ! i)) [0..<length f];
         neg = filter (\<lambda>i. fless (f ! i) (fsub med (fmul neg_tol MAD))) [0..<length f]
     in
     ebind (np_take t pos) (\<lambda>tpos.
     let pos_inds = map (argmax_eq (time s)) tpos in
     ebind (np_take t neg) (\<lambda>tneg.
     let neg_inds = map (argmax_eq (time s)) tneg in
     Inr (s\<lparr>outmask := neg_inds @ pos_inds, transitmask := []\<rparr>)))))"

section \<open>GetChunkData\<close>

text \<open>
  Matrices are lists of rows. \<open>gram XM\<close> is \<open>np.dot(XM, XM.T)\<close>. \<open>A += B\<close> adds in
  place, broadcasting a one-by-one \<open>B\<close>; other shape mismatches raise.
\<close>

definition zeros :: "nat \<Rightarrow> nat \<Rightarrow> matrix" where
  "zeros r c = replicate r (replicate c (Fin 0))"

definition gram :: "matrix \<Rightarrow> matrix" where
  "gram XM = map (\<lambda>ra. map (\<lambda>rb. vdot ra rb) XM) XM"

definition scale :: "npfloat \<Rightarrow> matrix \<Rightarrow> matrix" where
  "scale l B = map (map (fmul l)) B"

definition iadd :: "matrix \<Rightarrow> matrix \<Rightarrow> py_error + matrix" where
  "iadd A B =
     (if map length A = map length B then Inr (map2 (map2 fadd) A B)
      else case B of
             [[b]] \<Rightarrow> Inr (map (map (\<lambda>a. fadd a b)) A)
           | _ \<Rightarrow> Inl ValueError)"

definition getitem_nat :: "'a list \<Rightarrow> nat \<Rightarrow> py_error + 'a" where
  "getitem_nat xs i = (if i < length xs then Inr (xs ! i) else Inl IndexError)"

text \<open>The loop \<open>for n in range(star.pld_order)\<close> of the joint fit.\<close>

fun pld_loop :: "providers \<Rightarrow> star \<Rightarrow> nat \<Rightarrow> nat list \<Rightarrow> nat list \<Rightarrow> matrix \<Rightarrow> py_error + matrix" where
  "pld_loop p s chunk m [] A = Inr A"
| "pld_loop p s chunk m (n # ns) A =
     (let XM = X p s n m in
      ebind (getitem_nat (lam s) chunk) (\<lambda>row.
      ebind (getitem_nat row n) (\<lambda>l.
      ebind (iadd A (scale l (gram XM))) (\<lambda>A'.
      pld_loop p s chunk m ns A'))))"

text \<open>The loop that lays the observed times on the uniform grid.\<close>

fun grid_loop ::
  "real list \<Rightarrow> real \<Rightarrow> (nat \<times> real) list \<Rightarrow> real list \<times> nat list \<times> nat
     \<Rightarrow> py_error + (real list \<times> nat list \<times> nat)" where
  "grid_loop tm tol [] st = Inr st"
| "grid_loop tm tol ((i, t) # rest) (tg, gaps, j) =
     (if length tm \<le> j then Inl IndexError
      else if \<bar>tm ! j - t\<bar> < tol then
        (if Suc j = length tm then Inr (tg[i := tm ! j], gaps, Suc j)
         else grid_loop tm tol rest (tg[i := tm ! j], gaps, Suc j))
      else grid_loop tm tol rest (tg, gaps @ [i], j))"

definition uniform_grid :: "real list \<Rightarrow> py_error + (real list \<times> nat list \<times> nat)" where
  "uniform_grid tm =
     (let dt = median (diff tm) in
      if tm = [] then Inl IndexError
      else case dt of
             None \<Rightarrow> Inl ValueError
           | Some d \<Rightarrow>
               let tol = d / 5 in
               ebind (arange (hd tm) (last tm + tol) d) (\<lambda>tunif.
               grid_loop tm tol (zip [0..<length tunif] tunif) (tunif, [], 0)))"

text \<open>
  The invariant of the loop after \<open>k\<close> slots of a grid of \<open>n\<close> slots near \<open>g\<close>: the
  cursor \<open>j\<close> and the gaps account for the \<open>k\<close> slots, the gaps lie below \<open>k\<close>, the other
  slots below \<open>k\<close> hold the first \<open>j\<close> observed times in order, and every slot is within the
  tolerance of its grid point. \<open>grid_post\<close> is what holds of the returned state.
\<close>

definition grid_inv :: "real list \<Rightarrow> real \<Rightarrow> (nat \<Rightarrow> real) \<Rightarrow> nat \<Rightarrow> nat \<Rightarrow> real list \<times> nat list \<times> nat \<Rightarrow> bool" where
  "grid_inv tm tol g n k st =
     (case st of (tg, gaps, j) \<Rightarrow>
        length tg = n \<and> length gaps + j = k \<and> (\<forall>i \<in> set gaps. i < k) \<and>
        map (\<lambda>i. tg ! i) (filter (\<lambda>i. i \<notin> set gaps) [0..<k]) = take j tm \<and>
        (\<forall>i<n. \<bar>tg ! i - g i\<bar> < tol))"

definition grid_post :: "real list \<Rightarrow> real \<Rightarrow> (nat \<Rightarrow> real) \<Rightarrow> nat \<Rightarrow> real list \<times> nat list \<times> nat \<Rightarrow> bool" where
  "grid_post tm tol g n st =
     (case st of (tg, gaps, j) \<Rightarrow>
        grid_inv tm tol g n n st \<and> j \<le> length tm \<and>
        (j = length tm \<longrightarrow> 0 < n \<and> tg ! (n - 1) = last tm))"

definition GetChunkData ::
  "providers \<Rightarrow> star \<Rightarrow> nat \<Rightarrow> bool \<Rightarrow> py_error + (real list \<times> nat list \<times> vec \<times> matrix)" where
  "GetChunkData p s chunk joint_fit =
     (let m = get_masked_chunk p s chunk in
      ebind (np_take (time s) m) (\<lambda>tm.
      ebind (np_take (fraw_err s) m) (\<lambda>em.
      let K = GetCovariance p (kernel s) (kernel_params s) tm em in
      ebind (if joint_fit
             then ebind (pld_loop p s chunk m [0..<pld_order s] (zeros (length m) (length m))) (\<lambda>A.
                  ebind (iadd K A) (\<lambda>K'.
                  ebind (np_take (fraw s) m) (\<lambda>fl. Inr (K', fl))))
             else ebind (np_take (flux s) m) (\<lambda>fl. Inr (K, fl))) (\<lambda>(K', fl).
      ebind (cho_factor p K') (\<lambda>C.
      ebind (uniform_grid tm) (\<lambda>(tg, gaps, j).
      Inr (tg, gaps, fl, C)))))))"

section \<open>Search\<close>

text \<open>
  The transit model of one candidate, as the scan uses it: the shape on the full grid
  centred at \<open>t[i]\<close>, the gap entries deleted, scaled by the baseline.
\<close>

definition candidate_shape ::
  "providers \<Rightarrow> real list \<Rightarrow> nat list \<Rightarrow> npfloat \<Rightarrow> nat \<Rightarrow> py_error + vec" where
  "candidate_shape p t gaps baseline i =
     ebind (np_delete (TransitShape p t (t ! i)) gaps) (\<lambda>trn.
     Inr (map (\<lambda>x. fmul x baseline) trn))"

text \<open>\<open>np.dot(x, cho_solve(C, y))\<close>.\<close>

definition dot_solve :: "providers \<Rightarrow> matrix \<Rightarrow> vec \<Rightarrow> vec \<Rightarrow> py_error + npfloat" where
  "dot_solve p C x y = ebind (cho_solve p C y) (\<lambda>sy. np_dot x sy)"

text \<open>
  The loop \<open>for i in range(len(t))\<close> over the candidates of one chunk, on the arrays
  \<open>d\<close>, \<open>var\<close> and \<open>dchisq\<close>.
\<close>

fun scan_loop ::
  "providers \<Rightarrow> real list \<Rightarrow> nat list \<Rightarrow> vec \<Rightarrow> matrix \<Rightarrow> npfloat \<Rightarrow> npfloat \<Rightarrow> nat list
     \<Rightarrow> vec \<times> vec \<times> vec \<Rightarrow> py_error + (vec \<times> vec \<times> vec)" where
  "scan_loop p t gaps fl C baseline lnL0 [] st = Inr st"
| "scan_loop p t gaps fl C baseline lnL0 (i # is) (d, var, dchisq) =
     ebind (candidate_shape p t gaps baseline i) (\<lambda>trn.
     ebind (dot_solve p C trn trn) (\<lambda>q.
     let v = fdiv (Fin 1) q in
     if \<not> isfinite v
     then scan_loop p t gaps fl C baseline lnL0 is
            (d[i := NaN], var[i := NaN], dchisq[i := NaN])
     else
       ebind (dot_solve p C trn fl) (\<lambda>pr.
       let di = fmul v pr in
       ebind (np_binop fsub fl (map (\<lambda>x. fmul x di) trn)) (\<lambda>r.
       ebind (dot_solve p C r r) (\<lambda>qr.
       let lnL = fmul (Fin (- 0.5)) qr in
       scan_loop p t gaps fl C baseline lnL0 is
         (d[i := di], var[i := v], dchisq[i := fmul (Fin (- 2)) (fsub lnL0 lnL)]))))))"

text \<open>
  Whether the body of the loop runs through for candidate \<open>k\<close>: none of its solves and
  products raises.
\<close>

definition candidate_succeeds ::
  "providers \<Rightarrow> real list \<Rightarrow> nat list \<Rightarrow> vec \<Rightarrow> matrix \<Rightarrow> npfloat \<Rightarrow> nat \<Rightarrow> bool" where
  "candidate_succeeds p t gaps fl C baseline k =
     (case candidate_shape p t gaps baseline k of
        Inl _ \<Rightarrow> False
      | Inr trn \<Rightarrow>
          (case dot_solve p C trn trn of
             Inl _ \<Rightarrow> False
           | Inr q \<Rightarrow>
               let v = fdiv (Fin 1) q in
               if \<not> isfinite v then True
               else (case dot_solve p C trn fl of
                       Inl _ \<Rightarrow> False
                     | Inr pr \<Rightarrow>
                         (case np_binop fsub fl (map (\<lambda>x. fmul x (fmul v pr)) trn) of
                            Inl _ \<Rightarrow> False
                          | Inr r \<Rightarrow>
                              (case dot_solve p C r r of Inl _ \<Rightarrow> False | Inr _ \<Rightarrow> True)))))"

text \<open>The body of the loop over the chunks, up to the arrays of one chunk.\<close>

definition scan_chunk ::
  "providers \<Rightarrow> real list \<Rightarrow> nat list \<Rightarrow> vec \<Rightarrow> matrix \<Rightarrow> py_error + (vec \<times> vec \<times> vec)" where
  "scan_chunk p t gaps fl C =
     (let baseline = nanmedian fl in
      ebind (dot_solve p C fl fl) (\<lambda>q0.
      let lnL0 = fmul (Fin (- 0.5)) q0;
          z = replicate (length t) (Fin 0)
      in scan_loop p t gaps fl C baseline lnL0 [0..<length t] (z, z, z)))"

type_synonym search_result = "real list \<times> vec \<times> vec \<times> vec"

fun chunk_loop ::
  "providers \<Rightarrow> star \<Rightarrow> bool \<Rightarrow> nat list \<Rightarrow> search_result \<Rightarrow> py_error + search_result" where
  "chunk_loop p s joint_fit [] acc = Inr acc"
| "chunk_loop p s joint_fit (b # bs) (tm, ml_depth, depth_variance, delta_chisq) =
     ebind (GetChunkData p s b joint_fit) (\<lambda>(t, gaps, fl, C).
     ebind (scan_chunk p t gaps fl C) (\<lambda>(d, var, dchisq).
     chunk_loop p s joint_fit bs
       (tm @ t, ml_depth @ d, depth_variance @ var, delta_chisq @ dchisq)))"

text \<open>
  The files \<open>target%02d.search%d.npz\<close>, keyed by the two values the name is formatted
  from. A file holds the four saved arrays or cannot be read; a write can fail.
\<close>

datatype npz = Npz "real list" vec vec vec | Unreadable

record disk =
  files :: "int \<times> bool \<Rightarrow> npz option"
  writable :: bool

definition savez :: "disk \<Rightarrow> int \<times> bool \<Rightarrow> search_result \<Rightarrow> py_error + disk" where
  "savez dk key r =
     (case r of (tm, ml_depth, depth_variance, delta_chisq) \<Rightarrow>
        if writable dk
        then Inr (dk\<lparr>files := (files dk)(key \<mapsto> Npz tm ml_depth depth_variance delta_chisq)\<rparr>)
        else Inl IOError)"

definition load :: "disk \<Rightarrow> int \<times> bool \<Rightarrow> py_error + search_result" where
  "load dk key =
     (case files dk key of
        Some (Npz tm ml_depth depth_variance delta_chisq) \<Rightarrow>
          Inr (tm, ml_depth, depth_variance, delta_chisq)
      | _ \<Rightarrow> Inl IOError)"

definition Search ::
  "providers \<Rightarrow> star \<Rightarrow> bool \<Rightarrow> bool \<Rightarrow> npfloat \<Rightarrow> npfloat \<Rightarrow> disk
     \<Rightarrow> py_error + (search_result \<times> star \<times> disk)" where
  "Search p s joint_fit clobber pos_tol neg_tol dk =
     (if clobber \<or> files dk (ID s, joint_fit) = None
      then
        ebind (MaskOutliers p s pos_tol neg_tol) (\<lambda>s'.
        ebind (chunk_loop p s' joint_fit [0..<length (breakpoints s')] ([], [], [], [])) (\<lambda>r.
        ebind (savez dk (ID s', joint_fit) r) (\<lambda>dk'.
        Inr (r, s', dk'))))
      else
        ebind (load dk (ID s, joint_fit)) (\<lambda>r. Inr (r, s, dk)))"

section \<open>Fixtures for the worked examples\<close>

text \<open>
  Collaborators for concrete runs: one chunk holding every unmasked cadence, an identity
  covariance (so that solving returns the right-hand side), a unit impulse as transit
  shape, and no smoothing.
\<close>

definition demo_providers :: providers where
  "demo_providers =
     \<lparr>SavGol = (\<lambda>f. f),
      get_masked_chunk = (\<lambda>s chunk.
         filter (\<lambda>i. i \<notin> set (nanmask s @ badmask s @ outmask s @ transitmask s))
           [0..<length (time s)]),
      GetCovariance = (\<lambda>k ps tm em.
         map (\<lambda>i. map (\<lambda>j. if i = j then Fin 1 else Fin 0) [0..<length tm]) [0..<length tm]),
      X = (\<lambda>s n m. map (\<lambda>i. [Fin 1]) m),
      cho_factor = (\<lambda>K. Inr K),
      cho_solve = (\<lambda>C y. if length y = length C then Inr y else Inl ValueError),
      TransitShape = (\<lambda>t c. map (\<lambda>x. if x = c then Fin 1 else Fin 0) t)\<rparr>"

definition I2 :: matrix where
  "I2 = [[Fin 1, Fin 0], [Fin 0, Fin 1]]"

definition I3 :: matrix where
  "I3 = [[Fin 1, Fin 0, Fin 0], [Fin 0, Fin 1, Fin 0], [Fin 0, Fin 0, Fin 1]]"

text \<open>
  A light curve of three cadences in one chunk, whose last cadence is a negative outlier,
  and four states of the disk: empty, holding an older result, holding an unreadable file,
  and refusing writes.
\<close>

definition demo_star :: star where
  "demo_star =
     \<lparr>ID = 1, time = [0, 1, 2], flux = [Fin 2, Fin 2, Fin 1], fraw = [Fin 3, Fin 3, Fin 2],
      fraw_err = [Fin 1, Fin 1, Fin 1], nanmask = [], badmask = [], outmask = [],
      transitmask = [], breakpoints = [2], kernel = ''Basic'', kernel_params = [],
      pld_order = 1, lam = [[Fin 2]]\<rparr>"

definition demo_disk :: disk where
  "demo_disk = \<lparr>files = (\<lambda>k. None), writable = True\<rparr>"

definition demo_result :: search_result where
  "demo_result = ([0, 1], [Fin 1, Fin 1], [Fin (1 / 4), Fin (1 / 4)], [Fin 4, Fin 4])"

definition stale_disk :: disk where
  "stale_disk = \<lparr>files = (\<lambda>k. Some (Npz [0] [Fin 7] [Fin 7] [Fin 7])), writable = True\<rparr>"

definition broken_disk :: disk where
  "broken_disk = \<lparr>files = (\<lambda>k. Some Unreadable), writable = True\<rparr>"

definition full_disk :: disk where
  "full_disk = \<lparr>files = (\<lambda>k. None), writable = False\<rparr>"

text \<open>
  Two chunks of four cadences: one whose last time lies off the grid of the median
  spacing, and one with a missing cadence.
\<close>

definition offgrid_star :: star where
  "offgrid_star = demo_star\<lparr>time := [0, 1, 2, 18 / 5], flux := [Fin 2, Fin 2, Fin 2, Fin 2],
      fraw := [Fin 3, Fin 3, Fin 3, Fin 3], fraw_err := [Fin 1, Fin 1, Fin 1, Fin 1]\<rparr>"

definition gap_star :: star where
  "gap_star = offgrid_star\<lparr>time := [0, 1, 2, 4]\<rparr>"

definition I4 :: matrix where
  "I4 = [[Fin 1, Fin 0, Fin 0, Fin 0], [Fin 0, Fin 1, Fin 0, Fin 0],
         [Fin 0, Fin 0, Fin 1, Fin 0], [Fin 0, Fin 0, Fin 0, Fin 1]]"

text \<open>
  A light curve of seven cadences with one positive and one negative outlier, and
  masks left over from an earlier run.
\<close>

definition outlier_star :: star where
  "outlier_star = demo_star\<lparr>time := [0, 1, 2, 3, 4, 5, 6],
      flux := [Fin 0, Fin 1, Fin 2, Fin 3, Fin 4, Fin 20, Fin (- 300)],
      outmask := [0, 1], transitmask := [3]\<rparr>"

section \<open>Sequencing\<close>

lemma ebind_Inr_iff: "ebind m f = Inr y \<longleftrightarrow> (\<exists>x. m = Inr x \<and> f x = Inr y)"
  by (cases m) (simp_all add: ebind_def)

lemma ebind_Inr [simp]: "ebind (Inr x) f = f x"
  by (simp add: ebind_def)

lemma ebind_Inl [simp]: "ebind (Inl e) f = Inl e"
  by (simp add: ebind_def)

lemma np_take_Inr: "np_take xs m = Inr ys \<Longrightarrow> ys = map (\<lambda>i. xs ! i) m"
  by (simp add: np_take_def split: if_splits)

section \<open>The scan of one chunk\<close>

lemma scan_loop_length:
  "scan_loop p t gaps fl C b l0 is (d, var, dc) = Inr (d', var', dc') \<Longrightarrow>
   length d' = length d \<and> length var' = length var \<and> length dc' = length dc"
proof (induction "is" arbitrary: d var dc)
  case Nil
  then show ?case by simp
next
  case (Cons i "is")
  from Cons.prems show ?case
    by (auto simp: ebind_Inr_iff Let_def split: if_splits dest!: Cons.IH)
qed

lemma scan_loop_frame:
  "scan_loop p t gaps fl C b l0 is (d, var, dc) = Inr (d', var', dc') \<Longrightarrow> j \<notin> set is \<Longrightarrow>
   d' ! j = d ! j \<and> var' ! j = var ! j \<and> dc' ! j = dc ! j"
proof (induction "is" arbitrary: d var dc)
  case Nil
  then show ?case by simp
next
  case (Cons i "is")
  from Cons.prems show ?case
    by (auto simp: ebind_Inr_iff Let_def split: if_splits dest!: Cons.IH)
qed


lemma scan_loop_at:
  assumes "scan_loop p t gaps fl C b l0 is (d, var, dc) = Inr (d', var', dc')"
    and "distinct is" and "i \<in> set is"
    and "i < length d" "i < length var" "i < length dc"
  shows "\<exists>trn q. candidate_shape p t gaps b i = Inr trn \<and> dot_solve p C trn trn = Inr q \<and>
           (if isfinite (fdiv (Fin 1) q)
            then \<exists>pr r qr. dot_solve p C trn fl = Inr pr \<and>
                   np_binop fsub fl (map (\<lambda>x. fmul x (d' ! i)) trn) = Inr r \<and>
                   dot_solve p C r r = Inr qr \<and>
                   var' ! i = fdiv (Fin 1) q \<and>
                   d' ! i = fmul (var' ! i) pr \<and>
                   dc' ! i = fmul (Fin (- 2)) (fsub l0 (fmul (Fin (- 0.5)) qr))
            else d' ! i = NaN \<and> var' ! i = NaN \<and> dc' ! i = NaN)"
  using assms
proof (induction "is" arbitrary: d var dc)
  case Nil
  then show ?case by simp
next
  case (Cons a "is")
  from Cons.prems(1) obtain trn q where
    sh: "candidate_shape p t gaps b a = Inr trn" and q: "dot_solve p C trn trn = Inr q"
    by (auto simp: ebind_Inr_iff)
  show ?case
  proof (cases "i = a")
    case True
    have notin: "i \<notin> set is" using Cons.prems(2) True by simp
    show ?thesis
    proof (cases "isfinite (fdiv (Fin 1) q)")
      case fin: True
      from Cons.prems(1) sh q fin obtain pr r qr where
        pr: "dot_solve p C trn fl = Inr pr"
        and r: "np_binop fsub fl (map (\<lambda>x. fmul x (fmul (fdiv (Fin 1) q) pr)) trn) = Inr r"
        and qr: "dot_solve p C r r = Inr qr"
        and rest: "scan_loop p t gaps fl C b l0 is
           (d[a := fmul (fdiv (Fin 1) q) pr], var[a := fdiv (Fin 1) q],
            dc[a := fmul (Fin (- 2)) (fsub l0 (fmul (Fin (- 0.5)) qr))]) = Inr (d', var', dc')"
        by (auto simp: ebind_Inr_iff Let_def)
      from scan_loop_frame[OF rest notin] True Cons.prems(4-6)
      have "d' ! i = fmul (fdiv (Fin 1) q) pr" "var' ! i = fdiv (Fin 1) q"
        "dc' ! i = fmul (Fin (- 2)) (fsub l0 (fmul (Fin (- 0.5)) qr))"
        by simp_all
      with sh q fin pr r qr True show ?thesis by auto
    next
      case nfin: False
      from Cons.prems(1) sh q nfin have
        rest: "scan_loop p t gaps fl C b l0 is (d[a := NaN], var[a := NaN], dc[a := NaN])
                 = Inr (d', var', dc')"
        by (auto simp: ebind_Inr_iff Let_def)
      from scan_loop_frame[OF rest notin] True Cons.prems(4-6)
      have "d' ! i = NaN" "var' ! i = NaN" "dc' ! i = NaN" by simp_all
      with sh q nfin True show ?thesis by auto
    qed
  next
    case False
    then have mem: "i \<in> set is" using Cons.prems(3) by simp
    have dis: "distinct is" using Cons.prems(2) by simp
    from Cons.prems(1) sh q obtain d1 var1 dc1 where
      rest: "scan_loop p t gaps fl C b l0 is (d1, var1, dc1) = Inr (d', var', dc')"
      and len: "length d1 = length d" "length var1 = length var" "length dc1 = length dc"
      by (auto simp: ebind_Inr_iff Let_def split: if_splits)
    show ?thesis
      by (rule Cons.IH[OF rest dis mem]) (use len Cons.prems(4-6) in simp_all)
  qed
qed

text \<open>
  C1. For every chunk whose scan returns and every grid slot \<open>i\<close> with finite depth
  variance, the outputs satisfy the matched-filter equations: the variance is
  \<open>1 / (shape \<cdot> solve(cov, shape))\<close>, the depth is the variance times
  \<open>shape \<cdot> solve(cov, flux)\<close>, and the statistic is \<open>-2 * (lnL0 - lnL)\<close> with
  \<open>lnL0 = -0.5 * flux \<cdot> solve(cov, flux)\<close>, the residual \<open>r = flux - shape * depth\<close> and
  \<open>lnL = -0.5 * r \<cdot> solve(cov, r)\<close>. The shape is the transit shape on the full grid centred
  at \<open>t[i]\<close>, with the gap entries deleted, scaled by the median of the chunk's flux.
\<close>

theorem matched_filter_equations:
  assumes "scan_chunk p t gaps fl C = Inr (d, var, dchisq)"
    and "i < length t"
    and "np_delete (TransitShape p t (t ! i)) gaps = Inr sh"
    and "dot_solve p C (map (\<lambda>x. fmul x (nanmedian fl)) sh) (map (\<lambda>x. fmul x (nanmedian fl)) sh) = Inr q"
    and "isfinite (fdiv (Fin 1) q)"
  shows "\<exists>q0 pr r qr.
           dot_solve p C fl fl = Inr q0 \<and>
           dot_solve p C (map (\<lambda>x. fmul x (nanmedian fl)) sh) fl = Inr pr \<and>
           np_binop fsub fl (map (\<lambda>x. fmul x (d ! i)) (map (\<lambda>x. fmul x (nanmedian fl)) sh)) = Inr r \<and>
           dot_solve p C r r = Inr qr \<and>
           var ! i = fdiv (Fin 1) q \<and>
           d ! i = fmul (var ! i) pr \<and>
           dchisq ! i = fmul (Fin (- 2)) (fsub (fmul (Fin (- 0.5)) q0) (fmul (Fin (- 0.5)) qr))"
proof -
  let ?b = "nanmedian fl"
  let ?z = "replicate (length t) (Fin 0)"
  from assms(1) obtain q0 where q0: "dot_solve p C fl fl = Inr q0"
    and loop: "scan_loop p t gaps fl C ?b (fmul (Fin (- 0.5)) q0) [0..<length t] (?z, ?z, ?z)
                 = Inr (d, var, dchisq)"
    by (auto simp: scan_chunk_def ebind_Inr_iff Let_def)
  have sh: "candidate_shape p t gaps ?b i = Inr (map (\<lambda>x. fmul x ?b) sh)"
    using assms(3) by (simp add: candidate_shape_def)
  from scan_loop_at[OF loop, of i] assms(2) sh assms(4,5) q0
  show ?thesis by auto
qed

lemma upt_2: "[0..<2] = [0, 1]"
  by (simp add: upt_rec)

lemma upt_3: "[0..<3] = [0, 1, 2]"
  by (simp add: upt_rec)

lemma upt_4: "[0..<4] = [0, 1, 2, 3]"
  by (simp add: upt_rec)

lemma nanmedian_demo_1: "nanmedian [Fin 2, Fin 2, Fin 1] = Fin 2"
  by (simp add: nanmedian_def fsort_def fle_def)


theorem matched_filter_equations_witness:
  "\<exists>q0 pr r qr.
     dot_solve demo_providers I3 [Fin 2, Fin 2, Fin 1] [Fin 2, Fin 2, Fin 1] = Inr q0 \<and>
     dot_solve demo_providers I3 [Fin 0, Fin 0, Fin 2] [Fin 2, Fin 2, Fin 1] = Inr pr \<and>
     np_binop fsub [Fin 2, Fin 2, Fin 1] [Fin 0, Fin 0, Fin 1] = Inr r \<and>
     dot_solve demo_providers I3 r r = Inr qr \<and>
     Fin (1 / 4) = fdiv (Fin 1) (Fin 4) \<and>
     Fin (1 / 2) = fmul (Fin (1 / 4)) pr \<and>
     Fin 1 = fmul (Fin (- 2)) (fsub (fmul (Fin (- 0.5)) q0) (fmul (Fin (- 0.5)) qr))"
proof -
  have run: "scan_chunk demo_providers [0, 1, 2] [] [Fin 2, Fin 2, Fin 1] I3 =
      Inr ([Fin 1, Fin 1, Fin (1 / 2)], [Fin (1 / 4), Fin (1 / 4), Fin (1 / 4)],
           [Fin 4, Fin 4, Fin 1])"
    by (simp add: scan_chunk_def nanmedian_demo_1 upt_3 candidate_shape_def dot_solve_def demo_providers_def
        I3_def np_delete_def np_dot_def vdot_def np_binop_def fsub_def Let_def)
  have i: "(2::nat) < length [0, 1, 2 :: real]" by simp
  have sh: "np_delete (TransitShape demo_providers [0, 1, 2] ([0, 1, 2] ! 2)) [] =
      Inr [Fin 0, Fin 0, Fin 1]"
    by (simp add: demo_providers_def np_delete_def upt_3)
  have q: "dot_solve demo_providers I3
      (map (\<lambda>x. fmul x (nanmedian [Fin 2, Fin 2, Fin 1])) [Fin 0, Fin 0, Fin 1])
      (map (\<lambda>x. fmul x (nanmedian [Fin 2, Fin 2, Fin 1])) [Fin 0, Fin 0, Fin 1]) = Inr (Fin 4)"
    by (simp add: nanmedian_demo_1 dot_solve_def demo_providers_def I3_def np_dot_def vdot_def)
  have fin: "isfinite (fdiv (Fin 1) (Fin 4))" by simp
  from matched_filter_equations[OF run i sh q fin] show ?thesis
    by (simp add: nanmedian_demo_1)
qed

lemma scan_loop_total:
  assumes "\<forall>k \<in> set is. candidate_succeeds p t gaps fl C b k"
  shows "\<exists>res. scan_loop p t gaps fl C b l0 is st = Inr res"
  using assms
proof (induction "is" arbitrary: st)
  case Nil
  show ?case by (intro exI) (rule scan_loop.simps(1))
next
  case (Cons k "is")
  obtain d var dc where st: "st = (d, var, dc)" by (rule prod_cases3)
  from Cons.prems have ok: "candidate_succeeds p t gaps fl C b k"
    and rest: "\<forall>k \<in> set is. candidate_succeeds p t gaps fl C b k" by simp_all
  from ok obtain trn q where sh: "candidate_shape p t gaps b k = Inr trn"
    and q: "dot_solve p C trn trn = Inr q"
    by (auto simp: candidate_succeeds_def split: sum.splits)
  show ?case
  proof (cases "isfinite (fdiv (Fin 1) q)")
    case False
    with sh q Cons.IH[OF rest] show ?thesis unfolding st by (simp add: Let_def)
  next
    case True
    with ok sh q obtain pr r qr where "dot_solve p C trn fl = Inr pr"
      "np_binop fsub fl (map (\<lambda>x. fmul x (fmul (fdiv (Fin 1) q) pr)) trn) = Inr r"
      "dot_solve p C r r = Inr qr"
      by (auto simp: candidate_succeeds_def Let_def split: sum.splits)
    with True sh q Cons.IH[OF rest] show ?thesis unfolding st by (simp add: Let_def)
  qed
qed

text \<open>
  C5. Let the depth variance \<open>1 / (shape \<cdot> solve(cov, shape))\<close> of candidate \<open>i\<close> be not
  finite, and let the computations of the other candidates and of \<open>lnL0\<close> raise nothing.
  Then the scan of the chunk returns: the degenerate candidate does not abort it. In the
  result, depth, variance and statistic at slot \<open>i\<close> are not-a-number, and every candidate
  with a finite variance still holds its own variance, depth and statistic, so the scan
  went on and marked nothing else.
\<close>

theorem degenerate_candidate_marked:
  assumes i: "i < length t"
    and sh: "np_delete (TransitShape p t (t ! i)) gaps = Inr sh"
    and q: "dot_solve p C (map (\<lambda>x. fmul x (nanmedian fl)) sh)
              (map (\<lambda>x. fmul x (nanmedian fl)) sh) = Inr q"
    and deg: "\<not> isfinite (fdiv (Fin 1) q)"
    and q0: "dot_solve p C fl fl = Inr q0"
    and others: "\<forall>k<length t. k \<noteq> i \<longrightarrow> candidate_succeeds p t gaps fl C (nanmedian fl) k"
  shows "\<exists>d var dchisq.
           scan_chunk p t gaps fl C = Inr (d, var, dchisq) \<and>
           length d = length t \<and> length var = length t \<and> length dchisq = length t \<and>
           d ! i = NaN \<and> var ! i = NaN \<and> dchisq ! i = NaN \<and>
           (\<forall>k<length t. \<forall>shk qk.
              np_delete (TransitShape p t (t ! k)) gaps = Inr shk \<longrightarrow>
              dot_solve p C (map (\<lambda>x. fmul x (nanmedian fl)) shk)
                (map (\<lambda>x. fmul x (nanmedian fl)) shk) = Inr qk \<longrightarrow>
              isfinite (fdiv (Fin 1) qk) \<longrightarrow>
              var ! k = fdiv (Fin 1) qk \<and>
              (\<exists>pr r qr.
                 dot_solve p C (map (\<lambda>x. fmul x (nanmedian fl)) shk) fl = Inr pr \<and>
                 d ! k = fmul (var ! k) pr \<and>
                 np_binop fsub fl
                   (map (\<lambda>x. fmul x (d ! k)) (map (\<lambda>x. fmul x (nanmedian fl)) shk)) = Inr r \<and>
                 dot_solve p C r r = Inr qr \<and>
                 dchisq ! k =
                   fmul (Fin (- 2)) (fsub (fmul (Fin (- 0.5)) q0) (fmul (Fin (- 0.5)) qr))))"
proof -
  let ?b = "nanmedian fl"
  let ?z = "replicate (length t) (Fin 0)"
  let ?l0 = "fmul (Fin (- 0.5)) q0"
  have shi: "candidate_shape p t gaps ?b i = Inr (map (\<lambda>x. fmul x ?b) sh)"
    using sh by (simp add: candidate_shape_def)
  have oki: "candidate_succeeds p t gaps fl C ?b i"
    using shi q deg by (simp add: candidate_succeeds_def Let_def)
  have all: "\<forall>k \<in> set [0..<length t]. candidate_succeeds p t gaps fl C ?b k"
    using oki others by auto
  from scan_loop_total[OF all] obtain d var dchisq where
    loop: "scan_loop p t gaps fl C ?b ?l0 [0..<length t] (?z, ?z, ?z) = Inr (d, var, dchisq)"
    by (metis prod_cases3)
  have run: "scan_chunk p t gaps fl C = Inr (d, var, dchisq)"
    using q0 loop by (simp add: scan_chunk_def Let_def)
  from scan_loop_length[OF loop]
  have len: "length d = length t" "length var = length t" "length dchisq = length t" by simp_all
  from scan_loop_at[OF loop, of i] i shi q deg
  have mark: "d ! i = NaN \<and> var ! i = NaN \<and> dchisq ! i = NaN" by auto
  have rest: "var ! k = fdiv (Fin 1) qk \<and>
      (\<exists>pr r qr.
         dot_solve p C (map (\<lambda>x. fmul x ?b) shk) fl = Inr pr \<and>
         d ! k = fmul (var ! k) pr \<and>
         np_binop fsub fl (map (\<lambda>x. fmul x (d ! k)) (map (\<lambda>x. fmul x ?b) shk)) = Inr r \<and>
         dot_solve p C r r = Inr qr \<and>
         dchisq ! k = fmul (Fin (- 2)) (fsub ?l0 (fmul (Fin (- 0.5)) qr)))"
    if k: "k < length t" and shk: "np_delete (TransitShape p t (t ! k)) gaps = Inr shk"
      and qk: "dot_solve p C (map (\<lambda>x. fmul x ?b) shk) (map (\<lambda>x. fmul x ?b) shk) = Inr qk"
      and fin: "isfinite (fdiv (Fin 1) qk)" for k shk qk
  proof -
    have "candidate_shape p t gaps ?b k = Inr (map (\<lambda>x. fmul x ?b) shk)"
      using shk by (simp add: candidate_shape_def)
    with scan_loop_at[OF loop, of k] k qk fin show ?thesis by auto
  qed
  from run len mark rest show ?thesis by blast
qed

lemma nanmedian_demo_3: "nanmedian [Fin 2, Fin 1] = Fin (3 / 2)"
  by (simp add: nanmedian_def fsort_def fle_def)

lemma less_3_cases: "k < 3 \<Longrightarrow> k = 0 \<or> k = 1 \<or> k = (2::nat)"
  by arith

theorem degenerate_candidate_marked_witness:
  "\<exists>d var dchisq.
     scan_chunk demo_providers [0, 1, 2] [1] [Fin 2, Fin 1] I2 = Inr (d, var, dchisq) \<and>
     d ! 1 = NaN \<and> var ! 1 = NaN \<and> dchisq ! 1 = NaN \<and>
     var ! 0 = fdiv (Fin 1) (Fin (9 / 4)) \<and> var ! 2 = fdiv (Fin 1) (Fin (9 / 4))"
proof -
  let ?t = "[0, 1, 2] :: real list"
  let ?fl = "[Fin 2, Fin 1]"
  have i: "(1::nat) < length ?t" by simp
  have sh: "np_delete (TransitShape demo_providers ?t (?t ! 1)) [1] = Inr [Fin 0, Fin 0]"
    by (simp add: demo_providers_def np_delete_def upt_3)
  have q: "dot_solve demo_providers I2 (map (\<lambda>x. fmul x (nanmedian ?fl)) [Fin 0, Fin 0])
      (map (\<lambda>x. fmul x (nanmedian ?fl)) [Fin 0, Fin 0]) = Inr (Fin 0)"
    by (simp add: nanmedian_demo_3 dot_solve_def demo_providers_def I2_def np_dot_def vdot_def)
  have deg: "\<not> isfinite (fdiv (Fin 1) (Fin 0))" by simp
  have q0: "dot_solve demo_providers I2 ?fl ?fl = Inr (Fin 5)"
    by (simp add: dot_solve_def demo_providers_def I2_def np_dot_def vdot_def)
  have c0: "candidate_succeeds demo_providers ?t [1] ?fl I2 (nanmedian ?fl) 0"
    by (simp add: candidate_succeeds_def candidate_shape_def nanmedian_demo_3 dot_solve_def
        demo_providers_def I2_def np_delete_def np_dot_def vdot_def np_binop_def fsub_def upt_3
        Let_def)
  have c2: "candidate_succeeds demo_providers ?t [1] ?fl I2 (nanmedian ?fl) 2"
    by (simp add: candidate_succeeds_def candidate_shape_def nanmedian_demo_3 dot_solve_def
        demo_providers_def I2_def np_delete_def np_dot_def vdot_def np_binop_def fsub_def upt_3
        Let_def)
  have others: "\<forall>k<length ?t. k \<noteq> 1 \<longrightarrow>
      candidate_succeeds demo_providers ?t [1] ?fl I2 (nanmedian ?fl) k"
  proof (intro allI impI)
    fix k assume "k < length ?t" "k \<noteq> 1"
    then have "k = 0 \<or> k = 2" using less_3_cases[of k] by simp
    with c0 c2 show "candidate_succeeds demo_providers ?t [1] ?fl I2 (nanmedian ?fl) k" by blast
  qed
  have sh0: "np_delete (TransitShape demo_providers ?t (?t ! 0)) [1] = Inr [Fin 1, Fin 0]"
    by (simp add: demo_providers_def np_delete_def upt_3)
  have qk0: "dot_solve demo_providers I2 (map (\<lambda>x. fmul x (nanmedian ?fl)) [Fin 1, Fin 0])
      (map (\<lambda>x. fmul x (nanmedian ?fl)) [Fin 1, Fin 0]) = Inr (Fin (9 / 4))"
    by (simp add: nanmedian_demo_3 dot_solve_def demo_providers_def I2_def np_dot_def vdot_def)
  have sh2: "np_delete (TransitShape demo_providers ?t (?t ! 2)) [1] = Inr [Fin 0, Fin 1]"
    by (simp add: demo_providers_def np_delete_def upt_3)
  have qk2: "dot_solve demo_providers I2 (map (\<lambda>x. fmul x (nanmedian ?fl)) [Fin 0, Fin 1])
      (map (\<lambda>x. fmul x (nanmedian ?fl)) [Fin 0, Fin 1]) = Inr (Fin (9 / 4))"
    by (simp add: nanmedian_demo_3 dot_solve_def demo_providers_def I2_def np_dot_def vdot_def)
  have fin: "isfinite (fdiv (Fin 1) (Fin (9 / 4)))" by simp
  have k0: "(0::nat) < length ?t" and k2: "(2::nat) < length ?t" by simp_all
  from degenerate_candidate_marked[OF i sh q deg q0 others] obtain d var dchisq where
    run: "scan_chunk demo_providers ?t [1] ?fl I2 = Inr (d, var, dchisq)"
    and mark: "d ! 1 = NaN" "var ! 1 = NaN" "dchisq ! 1 = NaN"
    and rest: "\<And>k shk qk. k < length ?t \<Longrightarrow>
        np_delete (TransitShape demo_providers ?t (?t ! k)) [1] = Inr shk \<Longrightarrow>
        dot_solve demo_providers I2 (map (\<lambda>x. fmul x (nanmedian ?fl)) shk)
          (map (\<lambda>x. fmul x (nanmedian ?fl)) shk) = Inr qk \<Longrightarrow>
        isfinite (fdiv (Fin 1) qk) \<Longrightarrow> var ! k = fdiv (Fin 1) qk"
    by blast
  from rest[OF k0 sh0 qk0 fin] rest[OF k2 sh2 qk2 fin] run mark show ?thesis by blast
qed

section \<open>MaskOutliers and the cache of Search\<close>

lemma MaskOutliers_result:
  assumes "MaskOutliers p s pos_tol neg_tol = Inr s'"
  shows "s' = s\<lparr>outmask := outmask s', transitmask := []\<rparr>"
  using assms by (auto simp: MaskOutliers_def ebind_Inr_iff Let_def)

lemma MaskOutliers_ignores_masks:
  "MaskOutliers p (s\<lparr>outmask := om, transitmask := tk\<rparr>) pos_tol neg_tol =
   MaskOutliers p s pos_tol neg_tol"
  by (simp add: MaskOutliers_def)


lemma MaskOutliers_ID: "MaskOutliers p s pos_tol neg_tol = Inr s' \<Longrightarrow> ID s' = ID s"
  by (drule MaskOutliers_result) (erule ssubst, simp)

lemma Search_hit:
  "files dk (ID s, jf) = Some (Npz a b c d) \<Longrightarrow>
   Search p s jf False pt nt dk = Inr ((a, b, c, d), s, dk)"
  by (simp add: Search_def load_def)

lemma Search_clobber:
  "Search p s jf True pt nt dk =
   Search p s jf False pt nt (dk\<lparr>files := (files dk)((ID s, jf) := None)\<rparr>)"
proof (cases "MaskOutliers p s pt nt")
  case (Inl e)
  then show ?thesis by (simp add: Search_def)
next
  case (Inr s')
  note id = MaskOutliers_ID[OF Inr]
  show ?thesis
  proof (cases "chunk_loop p s' jf [0..<length (breakpoints s')] ([], [], [], [])")
    case (Inl e)
    then show ?thesis using Inr by (simp add: Search_def)
  next
    case r: (Inr r)
    show ?thesis using Inr r id
      by (cases r) (auto simp: Search_def savez_def)
  qed
qed

lemma MaskOutliers_demo: "MaskOutliers demo_providers demo_star (Fin (5 / 2)) (Fin 50) = Inr (demo_star\<lparr>outmask := [2]\<rparr>)"
  by (simp add: MaskOutliers_def demo_providers_def demo_star_def np_delete_def upt_3
      nanmedian_def fsort_def fle_def fsub_def Let_def np_take_def argmax_eq_def)

lemma uniform_grid_demo: "uniform_grid [0, 1] = Inr ([0, 1], [], 2)"
  by (simp add: uniform_grid_def median_def arange_def Let_def upt_rec)

lemma GetChunkData_demo: "GetChunkData demo_providers (demo_star\<lparr>outmask := [2]\<rparr>) 0 False =
   Inr ([0, 1], [], [Fin 2, Fin 2], [[Fin 1, Fin 0], [Fin 0, Fin 1]])"
  by (simp add: GetChunkData_def demo_providers_def demo_star_def upt_3 np_take_def uniform_grid_demo
     upt_rec[of 0 2] upt_rec[of 1 2])


lemma scan_chunk_demo: "scan_chunk demo_providers [0, 1] [] [Fin 2, Fin 2] [[Fin 1, Fin 0], [Fin 0, Fin 1]] =
    Inr ([Fin 1, Fin 1], [Fin (1 / 4), Fin (1 / 4)], [Fin 4, Fin 4])"
  by (simp add: scan_chunk_def nanmedian_def fsort_def fle_def upt_rec[of 0 2] upt_rec[of 1 2]
      candidate_shape_def dot_solve_def demo_providers_def
      np_delete_def np_dot_def vdot_def np_binop_def fsub_def Let_def)

lemma chunk_loop_demo: "chunk_loop demo_providers (demo_star\<lparr>outmask := [2]\<rparr>) False
     [0..<length (breakpoints (demo_star\<lparr>outmask := [2]\<rparr>))] ([], [], [], []) =
   Inr ([0, 1], [Fin 1, Fin 1], [Fin (1 / 4), Fin (1 / 4)], [Fin 4, Fin 4])"
proof -
  have "[0..<length (breakpoints (demo_star\<lparr>outmask := [2]\<rparr>))] = [0]"
    by (simp add: demo_star_def)
  then show ?thesis by (simp add: GetChunkData_demo scan_chunk_demo)
qed

lemma Search_demo: "Search demo_providers demo_star False True (Fin (5 / 2)) (Fin 50) demo_disk =
   Inr (([0, 1], [Fin 1, Fin 1], [Fin (1 / 4), Fin (1 / 4)], [Fin 4, Fin 4]),
        demo_star\<lparr>outmask := [2]\<rparr>,
        demo_disk\<lparr>files := (files demo_disk)((1, False) \<mapsto>
           Npz [0, 1] [Fin 1, Fin 1] [Fin (1 / 4), Fin (1 / 4)] [Fin 4, Fin 4])\<rparr>)"
  apply (simp only: Search_def simp_thms if_True MaskOutliers_demo ebind_Inr chunk_loop_demo)
  apply (simp add: savez_def demo_star_def demo_disk_def)
  done

text \<open>
  C10. MaskOutliers changes only the outlier mask and the in-transit mask of the star.
  With \<open>t\<close> and \<open>f\<close> the times and the smoothed fluxes of the cadences outside the
  not-a-number and flagged-bad masks, the new outlier mask is the list of the positions
  in the full time array of the negative outliers (\<open>f < med - neg_tol * MAD\<close>) followed by
  those of the positive outliers (\<open>f > med + pos_tol * MAD\<close>), whatever the mask held
  before: the result does not depend on the previous outlier and in-transit masks. The
  in-transit mask becomes empty, and every other field keeps its value.
\<close>

theorem MaskOutliers_frame:
  assumes run: "MaskOutliers p s pos_tol neg_tol = Inr s'"
    and t: "np_delete (time s) (nanmask s @ badmask s) = Inr t"
    and f0: "np_delete (flux s) (nanmask s @ badmask s) = Inr f0"
    and f: "f = SavGol p f0"
    and med: "med = nanmedian f"
    and MAD: "MAD = fmul (Fin 1.4826) (nanmedian (map (\<lambda>x. fabs (fsub x med)) f))"
  shows "outmask s' =
           map (\<lambda>k. argmax_eq (time s) (t ! k))
             (filter (\<lambda>k. fless (f ! k) (fsub med (fmul neg_tol MAD))) [0..<length f]) @
           map (\<lambda>k. argmax_eq (time s) (t ! k))
             (filter (\<lambda>k. fless (fadd med (fmul pos_tol MAD)) (f ! k)) [0..<length f]) \<and>
         transitmask s' = [] \<and>
         s' = s\<lparr>outmask := outmask s', transitmask := []\<rparr> \<and>
         MaskOutliers p (s\<lparr>outmask := om, transitmask := tk\<rparr>) pos_tol neg_tol = Inr s' \<and>
         ID s' = ID s \<and> time s' = time s \<and> flux s' = flux s \<and> fraw s' = fraw s \<and>
         fraw_err s' = fraw_err s \<and> nanmask s' = nanmask s \<and> badmask s' = badmask s \<and>
         breakpoints s' = breakpoints s \<and> kernel s' = kernel s \<and>
         kernel_params s' = kernel_params s \<and> pld_order s' = pld_order s \<and> lam s' = lam s"
proof -
  let ?neg = "filter (\<lambda>k. fless (f ! k) (fsub med (fmul neg_tol MAD))) [0..<length f]"
  let ?pos = "filter (\<lambda>k. fless (fadd med (fmul pos_tol MAD)) (f ! k)) [0..<length f]"
  from run t f0 f med MAD obtain tpos tneg where
    tp: "np_take t ?pos = Inr tpos" and tn: "np_take t ?neg = Inr tneg"
    and s': "s' = s\<lparr>outmask := map (argmax_eq (time s)) tneg @ map (argmax_eq (time s)) tpos,
                     transitmask := []\<rparr>"
    by (auto simp: MaskOutliers_def ebind_Inr_iff Let_def)
  have om: "outmask s' = map (\<lambda>k. argmax_eq (time s) (t ! k)) ?neg @
                         map (\<lambda>k. argmax_eq (time s) (t ! k)) ?pos"
    unfolding s' np_take_Inr[OF tp] np_take_Inr[OF tn] by (simp add: comp_def)
  have tr: "transitmask s' = []" unfolding s' by simp
  have eq: "s' = s\<lparr>outmask := outmask s', transitmask := []\<rparr>"
    by (rule MaskOutliers_result[OF run])
  have ign: "MaskOutliers p (s\<lparr>outmask := om, transitmask := tk\<rparr>) pos_tol neg_tol = Inr s'"
    using run by (simp only: MaskOutliers_ignores_masks)
  have fields: "ID s' = ID s \<and> time s' = time s \<and> flux s' = flux s \<and> fraw s' = fraw s \<and>
         fraw_err s' = fraw_err s \<and> nanmask s' = nanmask s \<and> badmask s' = badmask s \<and>
         breakpoints s' = breakpoints s \<and> kernel s' = kernel s \<and>
         kernel_params s' = kernel_params s \<and> pld_order s' = pld_order s \<and> lam s' = lam s"
    by (subst eq, simp)+
  from om tr eq ign fields show ?thesis by blast
qed

lemma upt_7: "[0..<7] = [0, 1, 2, 3, 4, 5, 6]"
  by (simp add: upt_rec)

lemma nanmedian_outlier_1:
  "nanmedian [Fin 0, Fin 1, Fin 2, Fin 3, Fin 4, Fin 20, Fin (- 300)] = Fin 2"
  by (simp add: nanmedian_def fsort_def fle_def)

lemma nanmedian_outlier_2:
  "nanmedian [Fin 2, Fin 1, Fin 0, Fin 1, Fin 2, Fin 18, Fin 302] = Fin 2"
  by (simp add: nanmedian_def fsort_def fle_def)

lemma MaskOutliers_outlier:
  "MaskOutliers demo_providers outlier_star (Fin (5 / 2)) (Fin 50) =
     Inr (outlier_star\<lparr>outmask := [6, 5], transitmask := []\<rparr>)"
  by (simp add: MaskOutliers_def demo_providers_def outlier_star_def demo_star_def np_delete_def
      upt_7 nanmedian_outlier_1 nanmedian_outlier_2 fsub_def Let_def np_take_def argmax_eq_def)

theorem MaskOutliers_frame_witness:
  "[6, 5] =
     map (\<lambda>k. argmax_eq [0, 1, 2, 3, 4, 5, 6] ([0, 1, 2, 3, 4, 5, 6] ! k))
       (filter (\<lambda>k. fless ([Fin 0, Fin 1, Fin 2, Fin 3, Fin 4, Fin 20, Fin (- 300)] ! k)
                  (fsub (Fin 2) (fmul (Fin 50) (fmul (Fin 1.4826) (Fin 2)))))
          [0..<length [Fin 0, Fin 1, Fin 2, Fin 3, Fin 4, Fin 20, Fin (- 300)]]) @
     map (\<lambda>k. argmax_eq [0, 1, 2, 3, 4, 5, 6] ([0, 1, 2, 3, 4, 5, 6] ! k))
       (filter (\<lambda>k. fless (fadd (Fin 2) (fmul (Fin (5 / 2)) (fmul (Fin 1.4826) (Fin 2))))
                  ([Fin 0, Fin 1, Fin 2, Fin 3, Fin 4, Fin 20, Fin (- 300)] ! k))
          [0..<length [Fin 0, Fin 1, Fin 2, Fin 3, Fin 4, Fin 20, Fin (- 300)]]) \<and>
   MaskOutliers demo_providers (outlier_star\<lparr>outmask := [9], transitmask := [1]\<rparr>)
     (Fin (5 / 2)) (Fin 50) = Inr (outlier_star\<lparr>outmask := [6, 5], transitmask := []\<rparr>) \<and>
   flux (outlier_star\<lparr>outmask := [6, 5], transitmask := []\<rparr>) = flux outlier_star"
proof -
  let ?fl = "[Fin 0, Fin 1, Fin 2, Fin 3, Fin 4, Fin 20, Fin (- 300)]"
  have t: "np_delete (time outlier_star) (nanmask outlier_star @ badmask outlier_star) =
      Inr [0, 1, 2, 3, 4, 5, 6]"
    by (simp add: outlier_star_def demo_star_def np_delete_def upt_7)
  have f0: "np_delete (flux outlier_star) (nanmask outlier_star @ badmask outlier_star) = Inr ?fl"
    by (simp add: outlier_star_def demo_star_def np_delete_def upt_7)
  have f: "?fl = SavGol demo_providers ?fl"
    by (simp add: demo_providers_def)
  have med: "Fin 2 = nanmedian ?fl"
    by (simp only: nanmedian_outlier_1)
  have "map (\<lambda>x. fabs (fsub x (Fin 2))) ?fl = [Fin 2, Fin 1, Fin 0, Fin 1, Fin 2, Fin 18, Fin 302]"
    by (simp add: fsub_def)
  then have MAD: "fmul (Fin 1.4826) (Fin 2) =
      fmul (Fin 1.4826) (nanmedian (map (\<lambda>x. fabs (fsub x (Fin 2))) ?fl))"
    by (simp only: nanmedian_outlier_2)
  note th = MaskOutliers_frame[OF MaskOutliers_outlier t f0 f med MAD,
      where om = "[9]" and tk = "[1]"]
  from th have a: "outmask (outlier_star\<lparr>outmask := [6, 5], transitmask := []\<rparr>) =
     map (\<lambda>k. argmax_eq (time outlier_star) ([0, 1, 2, 3, 4, 5, 6] ! k))
       (filter (\<lambda>k. fless (?fl ! k) (fsub (Fin 2) (fmul (Fin 50) (fmul (Fin 1.4826) (Fin 2)))))
          [0..<length ?fl]) @
     map (\<lambda>k. argmax_eq (time outlier_star) ([0, 1, 2, 3, 4, 5, 6] ! k))
       (filter (\<lambda>k. fless (fadd (Fin 2) (fmul (Fin (5 / 2)) (fmul (Fin 1.4826) (Fin 2)))) (?fl ! k))
          [0..<length ?fl])"
    by (rule conjunct1)
  have tm: "time outlier_star = [0, 1, 2, 3, 4, 5, 6]"
    by (simp add: outlier_star_def)
  from th have b: "MaskOutliers demo_providers (outlier_star\<lparr>outmask := [9], transitmask := [1]\<rparr>)
     (Fin (5 / 2)) (Fin 50) = Inr (outlier_star\<lparr>outmask := [6, 5], transitmask := []\<rparr>)"
    by blast
  from th have c: "flux (outlier_star\<lparr>outmask := [6, 5], transitmask := []\<rparr>) = flux outlier_star"
    by blast
  have h: "outmask (outlier_star\<lparr>outmask := [6, 5], transitmask := []\<rparr>) = [6, 5]" by simp
  have a': "[6, 5] =
     map (\<lambda>k. argmax_eq [0, 1, 2, 3, 4, 5, 6] ([0, 1, 2, 3, 4, 5, 6] ! k))
       (filter (\<lambda>k. fless (?fl ! k) (fsub (Fin 2) (fmul (Fin 50) (fmul (Fin 1.4826) (Fin 2)))))
          [0..<length ?fl]) @
     map (\<lambda>k. argmax_eq [0, 1, 2, 3, 4, 5, 6] ([0, 1, 2, 3, 4, 5, 6] ! k))
       (filter (\<lambda>k. fless (fadd (Fin 2) (fmul (Fin (5 / 2)) (fmul (Fin 1.4826) (Fin 2)))) (?fl ! k))
          [0..<length ?fl])"
    by (rule trans[OF h[symmetric] a[unfolded tm]])
  from a' b c show ?thesis by (intro conjI)
qed

text \<open>
  C8. When a readable persisted result exists for the target identifier and joint-fit
  flag and no recompute is forced, Search returns exactly the persisted arrays and leaves
  the star (hence its masks) and the disk as they were. A forced recompute behaves as a
  run with no persisted result: it does not depend on the previous outlier and
  in-transit masks, and when it returns, the masks were recomputed by MaskOutliers, every
  chunk was searched again, and the result was saved.
\<close>

theorem Search_cache_policy:
  "(files dk (ID s, jf) = Some (Npz a b c d) \<longrightarrow>
      Search p s jf False pt nt dk = Inr ((a, b, c, d), s, dk)) \<and>
   Search p s jf True pt nt dk =
     Search p s jf False pt nt (dk\<lparr>files := (files dk)((ID s, jf) := None)\<rparr>) \<and>
   Search p (s\<lparr>outmask := om, transitmask := tk\<rparr>) jf True pt nt dk = Search p s jf True pt nt dk \<and>
   (Search p s jf True pt nt dk = Inr (r, s', dk') \<longrightarrow>
      MaskOutliers p s pt nt = Inr s' \<and>
      chunk_loop p s' jf [0..<length (breakpoints s')] ([], [], [], []) = Inr r \<and>
      savez dk (ID s, jf) r = Inr dk')"
proof -
  have hit: "files dk (ID s, jf) = Some (Npz a b c d) \<longrightarrow>
      Search p s jf False pt nt dk = Inr ((a, b, c, d), s, dk)"
    by (simp add: Search_hit)
  have reset: "Search p (s\<lparr>outmask := om, transitmask := tk\<rparr>) jf True pt nt dk =
      Search p s jf True pt nt dk"
    by (simp add: Search_def MaskOutliers_ignores_masks)
  have rerun: "MaskOutliers p s pt nt = Inr s' \<and>
      chunk_loop p s' jf [0..<length (breakpoints s')] ([], [], [], []) = Inr r \<and>
      savez dk (ID s, jf) r = Inr dk'"
    if "Search p s jf True pt nt dk = Inr (r, s', dk')"
  proof -
    from that have m: "MaskOutliers p s pt nt = Inr s'"
      and l: "chunk_loop p s' jf [0..<length (breakpoints s')] ([], [], [], []) = Inr r"
      and w: "savez dk (ID s', jf) r = Inr dk'"
      by (auto simp: Search_def ebind_Inr_iff)
    from m l w MaskOutliers_ID[OF m] show ?thesis by simp
  qed
  from hit Search_clobber[of p s jf pt nt dk] reset rerun show ?thesis by blast
qed

theorem Search_cache_policy_witness:
  "Search demo_providers demo_star False False (Fin (5 / 2)) (Fin 50) stale_disk =
     Inr (([0], [Fin 7], [Fin 7], [Fin 7]), demo_star, stale_disk) \<and>
   MaskOutliers demo_providers demo_star (Fin (5 / 2)) (Fin 50) = Inr (demo_star\<lparr>outmask := [2]\<rparr>) \<and>
   savez demo_disk (ID demo_star, False) demo_result =
     Inr (demo_disk\<lparr>files := (files demo_disk)((1, False) \<mapsto>
           Npz [0, 1] [Fin 1, Fin 1] [Fin (1 / 4), Fin (1 / 4)] [Fin 4, Fin 4])\<rparr>)"
proof -
  have f: "files stale_disk (ID demo_star, False) = Some (Npz [0] [Fin 7] [Fin 7] [Fin 7])"
    by (simp add: stale_disk_def)
  from Search_cache_policy[where dk = stale_disk and s = demo_star and jf = False and a = "[0]"
      and b = "[Fin 7]" and c = "[Fin 7]" and d = "[Fin 7]" and p = demo_providers
      and pt = "Fin (5 / 2)" and nt = "Fin 50"] f
  have hit: "Search demo_providers demo_star False False (Fin (5 / 2)) (Fin 50) stale_disk =
     Inr (([0], [Fin 7], [Fin 7], [Fin 7]), demo_star, stale_disk)"
    by blast
  from Search_cache_policy[where dk = demo_disk and s = demo_star and jf = False
      and p = demo_providers and pt = "Fin (5 / 2)" and nt = "Fin 50"] Search_demo
  have "MaskOutliers demo_providers demo_star (Fin (5 / 2)) (Fin 50) = Inr (demo_star\<lparr>outmask := [2]\<rparr>) \<and>
     savez demo_disk (ID demo_star, False) demo_result =
     Inr (demo_disk\<lparr>files := (files demo_disk)((1, False) \<mapsto>
           Npz [0, 1] [Fin 1, Fin 1] [Fin (1 / 4), Fin (1 / 4)] [Fin 4, Fin 4])\<rparr>)"
    unfolding demo_result_def by blast
  with hit show ?thesis by blast
qed

text \<open>
  C9 as stated fails. With an unreadable persisted file and no forced recompute, Search
  raises instead of recomputing, although the recomputation succeeds on the same input;
  and when the write fails, Search raises although all chunks were searched.
\<close>

theorem unreadable_cache_counterexample:
  "Search demo_providers demo_star False False (Fin (5 / 2)) (Fin 50) broken_disk = Inl IOError \<and>
   Search demo_providers demo_star False False (Fin (5 / 2)) (Fin 50) full_disk = Inl IOError \<and>
   chunk_loop demo_providers (demo_star\<lparr>outmask := [2]\<rparr>) False
     [0..<length (breakpoints (demo_star\<lparr>outmask := [2]\<rparr>))] ([], [], [], []) = Inr demo_result"
proof -
  have a: "Search demo_providers demo_star False False (Fin (5 / 2)) (Fin 50) broken_disk = Inl IOError"
    by (simp add: Search_def broken_disk_def load_def)
  have b: "Search demo_providers demo_star False False (Fin (5 / 2)) (Fin 50) full_disk = Inl IOError"
    apply (simp only: Search_def MaskOutliers_demo ebind_Inr chunk_loop_demo)
    apply (simp add: savez_def full_disk_def)
    done
  from a b chunk_loop_demo show ?thesis by (simp only: demo_result_def simp_thms)
qed

text \<open>
  C9, amended. Search has no handler around the cache: when the persisted file exists but
  cannot be read and no recompute is forced, the read error is raised and nothing is
  recomputed; when the result has been computed and the write fails, the write error is
  raised and the computed result is not returned.
\<close>

theorem Search_cache_errors_abort:
  "(\<not> clobber \<longrightarrow> files dk (ID s, jf) = Some Unreadable \<longrightarrow>
      Search p s jf clobber pt nt dk = Inl IOError) \<and>
   (clobber \<or> files dk (ID s, jf) = None \<longrightarrow> \<not> writable dk \<longrightarrow>
      MaskOutliers p s pt nt = Inr s' \<longrightarrow>
      chunk_loop p s' jf [0..<length (breakpoints s')] ([], [], [], []) = Inr r \<longrightarrow>
      Search p s jf clobber pt nt dk = Inl IOError)"
proof -
  have rd: "Search p s jf clobber pt nt dk = Inl IOError"
    if "\<not> clobber" "files dk (ID s, jf) = Some Unreadable"
    using that by (simp add: Search_def load_def)
  have wr: "Search p s jf clobber pt nt dk = Inl IOError"
    if "clobber \<or> files dk (ID s, jf) = None" "\<not> writable dk"
      "MaskOutliers p s pt nt = Inr s'"
      "chunk_loop p s' jf [0..<length (breakpoints s')] ([], [], [], []) = Inr r"
    using that by (cases r) (auto simp: Search_def savez_def)
  from rd wr show ?thesis by blast
qed

theorem Search_cache_errors_abort_witness:
  "Search demo_providers demo_star False False (Fin (5 / 2)) (Fin 50) broken_disk = Inl IOError \<and>
   Search demo_providers demo_star False True (Fin (5 / 2)) (Fin 50) full_disk = Inl IOError"
proof -
  have f: "files broken_disk (ID demo_star, False) = Some Unreadable"
    by (simp add: broken_disk_def)
  have w: "\<not> writable full_disk"
    by (simp add: full_disk_def)
  from Search_cache_errors_abort[where clobber = False and dk = broken_disk and s = demo_star
      and jf = False and p = demo_providers and pt = "Fin (5 / 2)" and nt = "Fin 50"] f
  have a: "Search demo_providers demo_star False False (Fin (5 / 2)) (Fin 50) broken_disk = Inl IOError"
    by blast
  from Search_cache_errors_abort[where clobber = True and dk = full_disk and s = demo_star
      and jf = False and p = demo_providers and pt = "Fin (5 / 2)" and nt = "Fin 50"
      and s' = "demo_star\<lparr>outmask := [2]\<rparr>" and r = demo_result] w MaskOutliers_demo chunk_loop_demo
  have b: "Search demo_providers demo_star False True (Fin (5 / 2)) (Fin 50) full_disk = Inl IOError"
    unfolding demo_result_def by blast
  from a b show ?thesis by blast
qed

section \<open>The covariance of a chunk\<close>

lemma nth_map2_rows:
  assumes "map length A = replicate n n" "map length B = replicate n n" "a < n" "b < n"
  shows "map2 (map2 f) A B ! a ! b = f (A ! a ! b) (B ! a ! b)"
proof -
  have la: "length A = n" and lb: "length B = n"
    using assms(1,2) by (metis length_map length_replicate)+
  have ra: "length (A ! a) = n"
    using assms(1,3) la by (metis nth_map nth_replicate)
  have rb: "length (B ! a) = n"
    using assms(2,3) lb by (metis nth_map nth_replicate)
  show ?thesis using la lb ra rb assms(3,4) by simp
qed

lemma shape_map2_rows:
  assumes "map length A = replicate n n" "map length B = replicate n n"
  shows "map length (map2 (map2 f) A B) = replicate n n"
proof (rule nth_equalityI)
  have la: "length A = n" and lb: "length B = n"
    using assms by (metis length_map length_replicate)+
  show "length (map length (map2 (map2 f) A B)) = length (replicate n n)"
    using la lb by simp
  fix i assume "i < length (map length (map2 (map2 f) A B))"
  then have i: "i < n" using la lb by simp
  have "length (A ! i) = n" "length (B ! i) = n"
    using assms i la lb by (metis nth_map nth_replicate)+
  then show "map length (map2 (map2 f) A B) ! i = replicate n n ! i"
    using i la lb by simp
qed

lemma shape_scale_gram: "map length (scale l (gram XM)) = replicate (length XM) (length XM)"
  by (rule nth_equalityI) (simp_all add: scale_def gram_def)

lemma nth_scale_gram:
  "a < length XM \<Longrightarrow> b < length XM \<Longrightarrow>
   scale l (gram XM) ! a ! b = fmul l (vdot (XM ! a) (XM ! b))"
  by (simp add: scale_def gram_def)

lemma shape_zeros: "map length (zeros n n) = replicate n n"
  by (simp add: zeros_def)

lemma nth_zeros: "a < n \<Longrightarrow> b < n \<Longrightarrow> zeros n n ! a ! b = Fin 0"
  by (simp add: zeros_def)

lemma iadd_same_shape: "map length A = map length B \<Longrightarrow> iadd A B = Inr (map2 (map2 fadd) A B)"
  by (simp add: iadd_def)

lemma pld_loop_entries:
  assumes "pld_loop p s chunk m ns A = Inr A'"
    and "map length A = replicate n n"
    and "\<forall>k \<in> set ns. length (X p s k m) = n"
  shows "map length A' = replicate n n \<and>
         (\<forall>a<n. \<forall>b<n. A' ! a ! b =
            foldl fadd (A ! a ! b)
              (map (\<lambda>k. fmul (lam s ! chunk ! k) (vdot (X p s k m ! a) (X p s k m ! b))) ns))"
  using assms
proof (induction ns arbitrary: A)
  case Nil
  then show ?case by simp
next
  case (Cons k ns)
  let ?B = "scale (lam s ! chunk ! k) (gram (X p s k m))"
  have lenX: "length (X p s k m) = n" using Cons.prems(3) by simp
  have shB: "map length ?B = replicate n n"
    using shape_scale_gram[of "lam s ! chunk ! k" "X p s k m"] lenX by simp
  from Cons.prems(1) obtain A1 where
    step: "iadd A ?B = Inr A1" and rest: "pld_loop p s chunk m ns A1 = Inr A'"
    by (auto simp: ebind_Inr_iff Let_def getitem_nat_def split: if_splits)
  have A1: "A1 = map2 (map2 fadd) A ?B"
    using step iadd_same_shape[of A ?B] Cons.prems(2) shB by simp
  have shA1: "map length A1 = replicate n n"
    unfolding A1 by (rule shape_map2_rows[OF Cons.prems(2) shB])
  have ent: "A1 ! a ! b = fadd (A ! a ! b) (fmul (lam s ! chunk ! k) (vdot (X p s k m ! a) (X p s k m ! b)))"
    if "a < n" "b < n" for a b
    unfolding A1 using nth_map2_rows[OF Cons.prems(2) shB that] nth_scale_gram[of a "X p s k m" b] that lenX
    by simp
  have "\<forall>k \<in> set ns. length (X p s k m) = n" using Cons.prems(3) by simp
  from Cons.IH[OF rest shA1 this] ent show ?case by simp
qed


text \<open>
  C6. Let the covariance provider return a square matrix of the chunk's size and every
  basis matrix have one row per cadence of the chunk. With the joint fit requested, the
  matrix that is factorised has at row \<open>a\<close> and column \<open>b\<close> the noise covariance plus the
  sum over the orders \<open>k\<close> of \<open>lam[chunk][k]\<close> times the entry of \<open>X\<^sub>k X\<^sub>k\<^sup>T\<close>, and the target
  vector is the raw flux of the chunk; without it, the noise covariance itself is
  factorised and the target vector is the detrended flux.
\<close>

theorem joint_fit_covariance:
  assumes run: "GetChunkData p s chunk joint_fit = Inr (tg, gaps, fl, C)"
    and m: "m = get_masked_chunk p s chunk"
    and K0: "K0 = GetCovariance p (kernel s) (kernel_params s)
                   (map (\<lambda>i. time s ! i) m) (map (\<lambda>i. fraw_err s ! i) m)"
    and shK: "map length K0 = replicate (length m) (length m)"
    and shX: "\<forall>k<pld_order s. length (X p s k m) = length m"
  shows "if joint_fit
         then fl = map (\<lambda>i. fraw s ! i) m \<and>
              (\<exists>K. cho_factor p K = Inr C \<and>
                 map length K = replicate (length m) (length m) \<and>
                 (\<forall>a<length m. \<forall>b<length m.
                    K ! a ! b =
                      fadd (K0 ! a ! b)
                        (foldl fadd (Fin 0)
                           (map (\<lambda>k. fmul (lam s ! chunk ! k)
                                        (vdot (X p s k m ! a) (X p s k m ! b)))
                              [0..<pld_order s]))))
         else fl = map (\<lambda>i. flux s ! i) m \<and> cho_factor p K0 = Inr C"
proof (cases joint_fit)
  case False
  from run False m K0 have "cho_factor p K0 = Inr C \<and> fl = map (\<lambda>i. flux s ! i) m"
    by (auto simp: GetChunkData_def ebind_Inr_iff Let_def dest!: np_take_Inr)
  with False show ?thesis by simp
next
  case True
  let ?n = "length m"
  from run True m K0 have "\<exists>A K. pld_loop p s chunk m [0..<pld_order s] (zeros ?n ?n) = Inr A \<and>
      iadd K0 A = Inr K \<and> fl = map (\<lambda>i. fraw s ! i) m \<and> cho_factor p K = Inr C"
    by (auto simp: GetChunkData_def ebind_Inr_iff Let_def dest!: np_take_Inr)
  then obtain A K where
    loop: "pld_loop p s chunk m [0..<pld_order s] (zeros ?n ?n) = Inr A"
    and add: "iadd K0 A = Inr K"
    and fl: "fl = map (\<lambda>i. fraw s ! i) m"
    and fac: "cho_factor p K = Inr C"
    by blast
  have "\<forall>k \<in> set [0..<pld_order s]. length (X p s k m) = ?n"
    using shX by simp
  from pld_loop_entries[OF loop shape_zeros this]
  have shA: "map length A = replicate ?n ?n"
    and entA: "\<And>a b. a < ?n \<Longrightarrow> b < ?n \<Longrightarrow> A ! a ! b =
        foldl fadd (zeros ?n ?n ! a ! b)
          (map (\<lambda>k. fmul (lam s ! chunk ! k) (vdot (X p s k m ! a) (X p s k m ! b)))
             [0..<pld_order s])"
    by blast+
  have K: "K = map2 (map2 fadd) K0 A"
    using add iadd_same_shape[of K0 A] shK shA by simp
  have shKK: "map length K = replicate ?n ?n"
    unfolding K by (rule shape_map2_rows[OF shK shA])
  have ent: "K ! a ! b = fadd (K0 ! a ! b)
      (foldl fadd (Fin 0)
         (map (\<lambda>k. fmul (lam s ! chunk ! k) (vdot (X p s k m ! a) (X p s k m ! b)))
            [0..<pld_order s]))" if "a < ?n" "b < ?n" for a b
    unfolding K using nth_map2_rows[OF shK shA that] entA[OF that] nth_zeros[OF that] by simp
  from True fl fac shKK ent show ?thesis by auto
qed


lemma GetChunkData_demo_joint:
  "GetChunkData demo_providers (demo_star\<lparr>outmask := [2]\<rparr>) 0 True =
   Inr ([0, 1], [], [Fin 3, Fin 3], [[Fin 3, Fin 2], [Fin 2, Fin 3]])"
  by (simp add: GetChunkData_def demo_providers_def demo_star_def upt_3 np_take_def
      uniform_grid_demo upt_rec[of 0 2] upt_rec[of 1 2] zeros_def gram_def scale_def iadd_def
      getitem_nat_def vdot_def numeral_2_eq_2)

theorem joint_fit_covariance_witness:
  "(\<exists>K. cho_factor demo_providers K = Inr [[Fin 3, Fin 2], [Fin 2, Fin 3]] \<and>
        K ! 0 ! 1 = fadd (Fin 0) (foldl fadd (Fin 0) [fmul (Fin 2) (vdot [Fin 1] [Fin 1])])) \<and>
   cho_factor demo_providers [[Fin 1, Fin 0], [Fin 0, Fin 1]] =
     Inr [[Fin 1, Fin 0], [Fin 0, Fin 1]]"
proof -
  let ?s = "demo_star\<lparr>outmask := [2]\<rparr>"
  have m: "get_masked_chunk demo_providers ?s 0 = [0, 1]"
    by (simp add: demo_providers_def demo_star_def upt_3)
  have K0: "GetCovariance demo_providers (kernel ?s) (kernel_params ?s)
      (map (\<lambda>i. time ?s ! i) [0, 1]) (map (\<lambda>i. fraw_err ?s ! i) [0, 1]) =
      [[Fin 1, Fin 0], [Fin 0, Fin 1]]"
    by (simp add: demo_providers_def upt_rec[of 0 2] upt_rec[of 1 2])
  have shK: "map length [[Fin 1, Fin 0], [Fin 0, Fin 1]] = replicate (length [0, 1 :: nat]) (length [0, 1 :: nat])"
    by (simp add: numeral_2_eq_2)
  have shX: "\<forall>k<pld_order ?s. length (X demo_providers ?s k [0, 1]) = length [0, 1 :: nat]"
    by (simp add: demo_providers_def)
  from joint_fit_covariance[OF GetChunkData_demo_joint m[symmetric] K0[symmetric] shK shX]
  have "\<exists>K. cho_factor demo_providers K = Inr [[Fin 3, Fin 2], [Fin 2, Fin 3]] \<and>
      map length K = replicate (length [0, 1 :: nat]) (length [0, 1 :: nat]) \<and>
      (\<forall>a<length [0, 1 :: nat]. \<forall>b<length [0, 1 :: nat].
         K ! a ! b =
           fadd ([[Fin 1, Fin 0], [Fin 0, Fin 1]] ! a ! b)
             (foldl fadd (Fin 0)
                (map (\<lambda>k. fmul (lam ?s ! 0 ! k)
                             (vdot (X demo_providers ?s k [0, 1] ! a)
                                (X demo_providers ?s k [0, 1] ! b)))
                   [0..<pld_order ?s])))"
    by (simp only: if_True)
  then obtain K where fac: "cho_factor demo_providers K = Inr [[Fin 3, Fin 2], [Fin 2, Fin 3]]"
    and ent: "\<And>a b. a < length [0, 1 :: nat] \<Longrightarrow> b < length [0, 1 :: nat] \<Longrightarrow>
         K ! a ! b =
           fadd ([[Fin 1, Fin 0], [Fin 0, Fin 1]] ! a ! b)
             (foldl fadd (Fin 0)
                (map (\<lambda>k. fmul (lam ?s ! 0 ! k)
                             (vdot (X demo_providers ?s k [0, 1] ! a)
                                (X demo_providers ?s k [0, 1] ! b)))
                   [0..<pld_order ?s]))"
    by blast
  have "K ! 0 ! 1 = fadd (Fin 0) (foldl fadd (Fin 0) [fmul (Fin 2) (vdot [Fin 1] [Fin 1])])"
    using ent[of 0 1] by (simp add: demo_star_def demo_providers_def)
  with fac have a: "\<exists>K. cho_factor demo_providers K = Inr [[Fin 3, Fin 2], [Fin 2, Fin 3]] \<and>
        K ! 0 ! 1 = fadd (Fin 0) (foldl fadd (Fin 0) [fmul (Fin 2) (vdot [Fin 1] [Fin 1])])"
    by blast
  from joint_fit_covariance[OF GetChunkData_demo m[symmetric] K0[symmetric] shK shX]
  have b: "cho_factor demo_providers [[Fin 1, Fin 0], [Fin 0, Fin 1]] =
     Inr [[Fin 1, Fin 0], [Fin 0, Fin 1]]"
    by (simp only: if_False)
  from a b show ?thesis by blast
qed

section \<open>Folding\<close>

lemma py_round_bounds:
  assumes "0 \<le> y" "y \<le> of_int M"
  shows "0 \<le> py_round y \<and> py_round y \<le> M"
proof -
  have f0: "0 \<le> \<lfloor>y\<rfloor>" using assms(1) by simp
  have fM: "\<lfloor>y\<rfloor> \<le> M" using assms(2) by (simp add: floor_le_iff)
  have top: "\<lfloor>y\<rfloor> + 1 \<le> M" if "1 / 2 \<le> y - of_int \<lfloor>y\<rfloor>"
  proof (rule ccontr)
    assume "\<not> \<lfloor>y\<rfloor> + 1 \<le> M"
    with fM have "\<lfloor>y\<rfloor> = M" by simp
    with that assms(2) show False by simp
  qed
  show ?thesis
    using f0 fM top by (auto simp: py_round_def Let_def)
qed

lemma py_round_nearest: "\<bar>of_int (py_round y) - y\<bar> \<le> 1 / 2"
  by (auto simp: py_round_def Let_def abs_le_iff)

lemma arange_exact:
  assumes "P \<noteq> 0"
  shows "arange t0 (t0 + P * of_int n) P = Inr (map (\<lambda>k. t0 + real k * P) [0..<nat n])"
  using assms by (simp add: arange_def)

lemma fold_times_eq:
  assumes "tm \<noteq> []" "P \<noteq> 0"
  shows "fold_times tm P ph =
         Inr (map (\<lambda>k. hd tm + ph * P + real k * P)
                [0..<nat (py_int ((last tm - (hd tm + ph * P)) / P))])"
  using assms by (simp add: fold_times_def Let_def div_to_int_def arange_exact)


lemma py_int_le: "0 \<le> x \<Longrightarrow> of_int (py_int x) \<le> x"
  by (simp add: py_int_def)

lemma py_int_pos_arg: "0 < py_int x \<Longrightarrow> 0 \<le> x"
  by (auto simp: py_int_def split: if_splits)

lemma fold_time_range:
  assumes P: "0 < P" and ph: "0 \<le> ph"
    and k: "k < nat (py_int ((last tm - (hd tm + ph * P)) / P))"
  shows "hd tm \<le> hd tm + ph * P + real k * P \<and> hd tm + ph * P + real k * P < last tm"
proof -
  let ?x = "(last tm - (hd tm + ph * P)) / P"
  let ?n = "py_int ?x"
  from k have npos: "0 < ?n" by simp
  then have x0: "0 \<le> ?x" by (rule py_int_pos_arg)
  have nx: "of_int ?n \<le> ?x" using x0 by (rule py_int_le)
  have "real k < of_int ?n" using k npos by linarith
  then have "real k < ?x" using nx by linarith
  then have "real k * P < last tm - (hd tm + ph * P)"
    using P by (simp add: pos_less_divide_eq)
  moreover have "0 \<le> ph * P" "0 \<le> real k * P" using P ph by simp_all
  ultimately show ?thesis by linarith
qed

lemma fold_times_empty:
  assumes "tm \<noteq> []" and P: "0 < P" and ph: "0 \<le> ph" and big: "last tm - hd tm < P"
  shows "fold_times tm P ph = Inr []"
proof -
  let ?x = "(last tm - (hd tm + ph * P)) / P"
  have "0 \<le> ph * P" using P ph by simp
  then have "last tm - (hd tm + ph * P) < P" using big by linarith
  then have x1: "?x < 1" using P by (simp add: pos_divide_less_eq)
  have "py_int ?x \<le> 0"
  proof (cases "0 \<le> ?x")
    case True
    then have "\<lfloor>?x\<rfloor> = 0" using x1 by linarith
    then show ?thesis using True by (simp add: py_int_def)
  next
    case False
    then have "\<lceil>?x\<rceil> \<le> 0" by (simp add: ceiling_le_iff)
    then show ?thesis using False by (simp add: py_int_def)
  qed
  then show ?thesis using fold_times_eq[OF assms(1), of P ph] P by simp
qed

lemma np_getitem_in_range:
  "0 \<le> i \<Longrightarrow> i < int (length xs) \<Longrightarrow> np_getitem xs i = Inr (xs ! nat i)"
  by (simp add: np_getitem_def)

lemma fold_cell_ok:
  assumes "0 < dt"
    and "\<forall>t \<in> set ts. 0 \<le> py_round ((t - hd tm) / dt) \<and>
           py_round ((t - hd tm) / dt) < int (length delta_chisq)"
  shows "fold_cell tm (Some dt) delta_chisq ts z =
         Inr (foldl fadd z (map (\<lambda>t. delta_chisq ! nat (py_round ((t - hd tm) / dt))) ts))"
  using assms
  by (induction ts arbitrary: z) (simp_all add: div_to_int_def np_getitem_in_range)

lemma emap_ok: "\<forall>x \<in> set xs. f x = Inr (g x) \<Longrightarrow> emap f xs = Inr (map g xs)"
  by (induction xs) simp_all

lemma median_Some_nonempty: "median xs = Some d \<Longrightarrow> xs \<noteq> []"
  by (auto simp: median_def)

lemma diff_nonempty: "diff xs \<noteq> [] \<Longrightarrow> xs \<noteq> []"
  by (cases xs) simp_all


lemma fold_index_in_range:
  assumes dt: "0 < dt" and P: "0 < P" and ph: "0 \<le> ph"
    and span: "last tm - hd tm \<le> (real (length delta_chisq) - 1) * dt"
    and k: "k < nat (py_int ((last tm - (hd tm + ph * P)) / P))"
  shows "0 \<le> py_round ((hd tm + ph * P + real k * P - hd tm) / dt) \<and>
         py_round ((hd tm + ph * P + real k * P - hd tm) / dt) < int (length delta_chisq)"
proof -
  let ?t = "hd tm + ph * P + real k * P"
  let ?y = "(?t - hd tm) / dt"
  from fold_time_range[OF P ph k] have lo: "hd tm \<le> ?t" and hi: "?t < last tm" by blast+
  have y0: "0 \<le> ?y" using lo dt by simp
  have "?t - hd tm < (real (length delta_chisq) - 1) * dt" using hi span by linarith
  then have "?y < real (length delta_chisq) - 1" using dt by (simp add: pos_divide_less_eq)
  then have "?y \<le> of_int (int (length delta_chisq) - 1)" by simp
  from py_round_bounds[OF y0 this] show ?thesis by linarith
qed

text \<open>
  C7, amended. Let the trial periods be strictly positive and the trial phases
  non-negative, the median spacing \<open>dt\<close> of the times be positive, and the baseline
  \<open>time[last] - time[0]\<close> be at most \<open>(len(delta_chisq) - 1) * dt\<close>, as on a uniform grid
  without gaps with one statistic per cadence. Then Heatmap returns without an error:
  no division by zero and every rounded index within the bounds of the statistic; and a
  trial period larger than the baseline has at most one fold time.
\<close>

theorem Heatmap_safe_on_uniform_grid:
  assumes med: "median (diff tm) = Some dt" and dt: "0 < dt"
    and span: "last tm - hd tm \<le> (real (length delta_chisq) - 1) * dt"
    and periods: "\<forall>P \<in> set periods. 0 < P"
    and phases: "\<forall>ph \<in> set phases. 0 \<le> ph"
  shows "(\<exists>z. Heatmap tm delta_chisq periods phases = Inr z) \<and>
         (\<forall>P \<in> set periods. \<forall>ph \<in> set phases. \<exists>ts.
            fold_times tm P ph = Inr ts \<and>
            (\<forall>t \<in> set ts. 0 \<le> py_round ((t - hd tm) / dt) \<and>
                            py_round ((t - hd tm) / dt) < int (length delta_chisq)) \<and>
            (last tm - hd tm < P \<longrightarrow> length ts \<le> 1))"
proof -
  have ne: "tm \<noteq> []"
    using med by (blast dest: median_Some_nonempty diff_nonempty)
  let ?ts = "\<lambda>P ph. map (\<lambda>k. hd tm + ph * P + real k * P)
                [0..<nat (py_int ((last tm - (hd tm + ph * P)) / P))]"
  let ?cell = "\<lambda>P ph. foldl fadd (Fin 0)
                 (map (\<lambda>t. delta_chisq ! nat (py_round ((t - hd tm) / dt))) (?ts P ph))"
  have ft: "fold_times tm P ph = Inr (?ts P ph)" if "P \<in> set periods" for P ph
    using fold_times_eq[OF ne, of P ph] periods that by auto
  have inr: "\<forall>t \<in> set (?ts P ph). 0 \<le> py_round ((t - hd tm) / dt) \<and>
                py_round ((t - hd tm) / dt) < int (length delta_chisq)"
    if "P \<in> set periods" "ph \<in> set phases" for P ph
  proof
    fix t assume "t \<in> set (?ts P ph)"
    then obtain k where k: "k < nat (py_int ((last tm - (hd tm + ph * P)) / P))"
      and t: "t = hd tm + ph * P + real k * P" by auto
    from that periods phases have "0 < P" "0 \<le> ph" by auto
    from fold_index_in_range[OF dt this span k] show
      "0 \<le> py_round ((t - hd tm) / dt) \<and> py_round ((t - hd tm) / dt) < int (length delta_chisq)"
      unfolding t .
  qed
  have cell: "heat_cell tm (Some dt) delta_chisq P ph = Inr (?cell P ph)"
    if "P \<in> set periods" "ph \<in> set phases" for P ph
    using ft[OF that(1), of ph] fold_cell_ok[OF dt inr[OF that]]
    by (simp add: heat_cell_def)
  have row: "emap (\<lambda>ph. heat_cell tm (Some dt) delta_chisq P ph) phases =
             Inr (map (?cell P) phases)" if "P \<in> set periods" for P
    by (rule emap_ok) (use cell[OF that] in blast)
  have "Heatmap tm delta_chisq periods phases =
        Inr (map (\<lambda>P. map (?cell P) phases) periods)"
    unfolding Heatmap_def med Let_def
    by (rule emap_ok) (use row in blast)
  then have one: "\<exists>z. Heatmap tm delta_chisq periods phases = Inr z" by blast
  have two: "\<exists>ts. fold_times tm P ph = Inr ts \<and>
            (\<forall>t \<in> set ts. 0 \<le> py_round ((t - hd tm) / dt) \<and>
                            py_round ((t - hd tm) / dt) < int (length delta_chisq)) \<and>
            (last tm - hd tm < P \<longrightarrow> length ts \<le> 1)"
    if "P \<in> set periods" "ph \<in> set phases" for P ph
  proof -
    from that periods phases have P: "0 < P" and ph: "0 \<le> ph" by auto
    have "last tm - hd tm < P \<longrightarrow> ?ts P ph = []"
      using fold_times_empty[OF ne P ph] ft[OF that(1), of ph] by auto
    then have "last tm - hd tm < P \<longrightarrow> length (?ts P ph) \<le> 1" by simp
    with ft[OF that(1), of ph] inr[OF that] show ?thesis by blast
  qed
  from one two show ?thesis by blast
qed


lemma median_demo: "median (diff [0, 1, 2, 3, 4, 5]) = Some 1"
  by (simp add: median_def Let_def)

lemma median_gappy: "median [1, 1, 1, 7] = Some 1"
  by (simp add: median_def Let_def)

lemma median_ones: "median [1, 1, 1, 1, 1] = Some 1"
  by (simp add: median_def Let_def)

theorem Heatmap_safe_on_uniform_grid_witness:
  "(\<exists>z. Heatmap [0, 1, 2, 3, 4, 5] [Fin 0, Fin 0, Fin 0, Fin 0, Fin 1, Fin 0] [4, 7] [0, 1 / 2]
        = Inr z) \<and>
   (\<exists>ts. fold_times [0, 1, 2, 3, 4, 5] 7 0 = Inr ts \<and> length ts \<le> 1)"
proof -
  let ?tm = "[0, 1, 2, 3, 4, 5] :: real list"
  let ?dc = "[Fin 0, Fin 0, Fin 0, Fin 0, Fin 1, Fin 0]"
  have dt: "(0::real) < 1" by simp
  have span: "last ?tm - hd ?tm \<le> (real (length ?dc) - 1) * 1" by simp
  have periods: "\<forall>P \<in> set [4, 7 :: real]. 0 < P" by simp
  have phases: "\<forall>ph \<in> set [0, 1 / 2 :: real]. 0 \<le> ph" by simp
  note th = Heatmap_safe_on_uniform_grid[OF median_demo dt span periods phases]
  from th have a: "\<exists>z. Heatmap ?tm ?dc [4, 7] [0, 1 / 2] = Inr z" by blast
  from th have b: "\<exists>ts. fold_times ?tm 7 0 = Inr ts \<and> length ts \<le> 1" by auto
  from a b show ?thesis by blast
qed

text \<open>
  C7 as stated fails. On a time series with a gap, a strictly positive trial period
  leads to a rounded index past the end of the statistic, and the read raises. On a
  uniform series, a strictly positive period with a negative phase starts the fold before
  the first time: the rounded index lies before the start of the statistic and the read
  raises, and a period larger than the baseline can have two fold times.
\<close>

theorem Heatmap_gappy_counterexample:
  "Heatmap [0, 1, 2, 3, 10] [Fin 0, Fin 0, Fin 0, Fin 0, Fin 0] [3] [0] = Inl IndexError \<and>
   Heatmap [0, 1, 2, 3, 4, 5] [Fin 0, Fin 0, Fin 0, Fin 0, Fin 1, Fin 0] [4] [- 3] =
     Inl IndexError \<and>
   fold_times [0, 1, 2, 3, 4, 5] 7 (- 2) = Inr [- 14, - 7]"
proof -
  have a: "Heatmap [0, 1, 2, 3, 10] [Fin 0, Fin 0, Fin 0, Fin 0, Fin 0] [3] [0] = Inl IndexError"
    by (simp add: Heatmap_def median_gappy heat_cell_def fold_times_def div_to_int_def
        py_int_def arange_def py_round_def np_getitem_def Let_def upt_3)
  have c17: "\<lceil>17 / 4 :: real\<rceil> = 5" by linarith
  have ft: "fold_times [0, 1, 2, 3, 4, 5] 4 (- 3) = Inr [- 12, - 8, - 4, 0]"
    by (simp add: fold_times_def div_to_int_def py_int_def arange_def Let_def c17 upt_4)
  have b: "Heatmap [0, 1, 2, 3, 4, 5] [Fin 0, Fin 0, Fin 0, Fin 0, Fin 1, Fin 0] [4] [- 3] =
      Inl IndexError"
    by (simp add: Heatmap_def median_ones heat_cell_def ft div_to_int_def py_round_def
        np_getitem_def Let_def)
  have c19: "\<lceil>19 / 7 :: real\<rceil> = 3" by linarith
  have c: "fold_times [0, 1, 2, 3, 4, 5] 7 (- 2) = Inr [- 14, - 7]"
    by (simp add: fold_times_def div_to_int_def py_int_def arange_def Let_def c19 upt_2)
  from a b c show ?thesis by blast
qed

lemma spec_fold_times_complete:
  assumes "0 < P"
  shows "set (spec_fold_times tm P ph) =
         {t. \<exists>k::nat. t = hd tm + ph * P + real k * P \<and> t < last tm}"
proof -
  let ?n = "nat \<lceil>(last tm - (hd tm + ph * P)) / P\<rceil>"
  have iff: "k < ?n \<longleftrightarrow> hd tm + ph * P + real k * P < last tm" for k :: nat
  proof -
    have "k < ?n \<longleftrightarrow> real k < (last tm - (hd tm + ph * P)) / P"
      by (simp add: zless_nat_eq_int_zless less_ceiling_iff)
    also have "\<dots> \<longleftrightarrow> real k * P < last tm - (hd tm + ph * P)"
      using assms by (simp add: pos_less_divide_eq)
    also have "\<dots> \<longleftrightarrow> hd tm + ph * P + real k * P < last tm" by linarith
    finally show ?thesis .
  qed
  have "set (spec_fold_times tm P ph) = (\<lambda>k. hd tm + ph * P + real k * P) ` {k. k < ?n}"
    by (simp add: spec_fold_times_def Let_def atLeast0LessThan lessThan_def)
  also have "\<dots> = {t. \<exists>k::nat. t = hd tm + ph * P + real k * P \<and> t < last tm}"
  proof (intro set_eqI iffI)
    fix t assume "t \<in> (\<lambda>k. hd tm + ph * P + real k * P) ` {k. k < ?n}"
    then obtain k where "k < ?n" "t = hd tm + ph * P + real k * P" by blast
    with iff[of k] show "t \<in> {t. \<exists>k::nat. t = hd tm + ph * P + real k * P \<and> t < last tm}"
      by blast
  next
    fix t assume "t \<in> {t. \<exists>k::nat. t = hd tm + ph * P + real k * P \<and> t < last tm}"
    then obtain k :: nat where "t = hd tm + ph * P + real k * P" "t < last tm" by blast
    with iff[of k] show "t \<in> (\<lambda>k. hd tm + ph * P + real k * P) ` {k. k < ?n}"
      by blast
  qed
  finally show ?thesis .
qed


text \<open>
  C2 at a concrete input. The times are 0 to 5, the period is 4 and the phase 0, so the
  fold times strictly less than the last time are 0 and 4, and the statistic is 1 at
  index 4. Heatmap folds over 0 only and returns 0 for the cell: the fold time 4 is left
  out, because \<open>np.arange(t0, tf, period)\<close> excludes \<open>tf\<close>, the last fold time.
\<close>

theorem Heatmap_drops_last_fold_time:
  "Heatmap [0, 1, 2, 3, 4, 5] [Fin 0, Fin 0, Fin 0, Fin 0, Fin 1, Fin 0] [4] [0] = Inr [[Fin 0]] \<and>
   fold_times [0, 1, 2, 3, 4, 5] 4 0 = Inr [0] \<and>
   spec_fold_times [0, 1, 2, 3, 4, 5] 4 0 = [0, 4]"
proof -
  have ft: "fold_times [0, 1, 2, 3, 4, 5] 4 0 = Inr [0]"
    by (simp add: fold_times_def div_to_int_def py_int_def arange_def Let_def)
  have "\<lceil>5 / 4 :: real\<rceil> = 2" by linarith
  then have sp: "spec_fold_times [0, 1, 2, 3, 4, 5] 4 0 = [0, 4]"
    by (simp add: spec_fold_times_def Let_def upt_2)
  have hm: "Heatmap [0, 1, 2, 3, 4, 5] [Fin 0, Fin 0, Fin 0, Fin 0, Fin 1, Fin 0] [4] [0] =
      Inr [[Fin 0]]"
    by (simp add: Heatmap_def median_ones heat_cell_def ft div_to_int_def py_round_def
        np_getitem_def Let_def)
  from hm ft sp show ?thesis by blast
qed

section \<open>The uniform grid of a chunk\<close>

lemma grid_inv_match:
  assumes inv: "grid_inv tm tol g n k (tg, gaps, j)" and k: "k < n" and j: "j < length tm"
    and hit: "\<bar>tm ! j - g k\<bar> < tol"
  shows "grid_inv tm tol g n (Suc k) (tg[k := tm ! j], gaps, Suc j)"
proof -
  from inv have len: "length tg = n" and cnt: "length gaps + j = k"
    and gl: "\<forall>i \<in> set gaps. i < k"
    and pre: "map (\<lambda>i. tg ! i) (filter (\<lambda>i. i \<notin> set gaps) [0..<k]) = take j tm"
    and near: "\<forall>i<n. \<bar>tg ! i - g i\<bar> < tol"
    by (simp_all add: grid_inv_def)
  have kng: "k \<notin> set gaps" using gl by auto
  have same: "map (\<lambda>i. tg[k := tm ! j] ! i) (filter (\<lambda>i. i \<notin> set gaps) [0..<k]) =
              map (\<lambda>i. tg ! i) (filter (\<lambda>i. i \<notin> set gaps) [0..<k])"
    by (rule map_cong) auto
  have "map (\<lambda>i. tg[k := tm ! j] ! i) (filter (\<lambda>i. i \<notin> set gaps) [0..<Suc k]) =
        take j tm @ [tm ! j]"
    using kng same pre k len by simp
  also have "\<dots> = take (Suc j) tm" using j by (simp add: take_Suc_conv_app_nth)
  finally have pre': "map (\<lambda>i. tg[k := tm ! j] ! i) (filter (\<lambda>i. i \<notin> set gaps) [0..<Suc k]) =
        take (Suc j) tm" .
  have near': "\<forall>i<n. \<bar>tg[k := tm ! j] ! i - g i\<bar> < tol"
  proof (intro allI impI)
    fix i assume i: "i < n"
    show "\<bar>tg[k := tm ! j] ! i - g i\<bar> < tol"
    proof (cases "i = k")
      case True
      then show ?thesis using hit len k by simp
    next
      case False
      then show ?thesis using near i by simp
    qed
  qed
  from len cnt gl pre' near' show ?thesis
    by (auto simp: grid_inv_def less_Suc_eq)
qed

lemma grid_inv_gap:
  assumes inv: "grid_inv tm tol g n k (tg, gaps, j)"
  shows "grid_inv tm tol g n (Suc k) (tg, gaps @ [k], j)"
proof -
  from inv have len: "length tg = n" and cnt: "length gaps + j = k"
    and gl: "\<forall>i \<in> set gaps. i < k"
    and pre: "map (\<lambda>i. tg ! i) (filter (\<lambda>i. i \<notin> set gaps) [0..<k]) = take j tm"
    and near: "\<forall>i<n. \<bar>tg ! i - g i\<bar> < tol"
    by (simp_all add: grid_inv_def)
  have "filter (\<lambda>i. i \<notin> set (gaps @ [k])) [0..<k] = filter (\<lambda>i. i \<notin> set gaps) [0..<k]"
    by (rule filter_cong) auto
  then have "map (\<lambda>i. tg ! i) (filter (\<lambda>i. i \<notin> set (gaps @ [k])) [0..<Suc k]) = take j tm"
    using pre by simp
  with len cnt gl near show ?thesis
    by (auto simp: grid_inv_def less_Suc_eq)
qed


lemma last_slot:
  assumes d: "0 < (d::real)" and k: "k < nat \<lceil>(L + d / 5 - a) / d\<rceil>"
    and hit: "\<bar>L - (a + real k * d)\<bar> < d / 5"
  shows "Suc k = nat \<lceil>(L + d / 5 - a) / d\<rceil>"
proof (rule ccontr)
  assume "Suc k \<noteq> nat \<lceil>(L + d / 5 - a) / d\<rceil>"
  with k have "Suc k < nat \<lceil>(L + d / 5 - a) / d\<rceil>" by simp
  then have "real (Suc k) < (L + d / 5 - a) / d"
    by (simp add: zless_nat_eq_int_zless less_ceiling_iff)
  then have "real (Suc k) * d < L + d / 5 - a"
    using d by (simp add: pos_less_divide_eq)
  then have "real k * d + d < L + d / 5 - a"
    by (simp add: algebra_simps)
  with hit d show False by (simp add: abs_less_iff)
qed

lemma grid_loop_post:
  fixes tm :: "real list" and d a :: real
  defines "g \<equiv> \<lambda>i. a + real i * d"
  defines "n \<equiv> nat \<lceil>(last tm + d / 5 - a) / d\<rceil>"
  assumes d: "0 < d" and kn: "k \<le> n"
    and inv: "grid_inv tm (d / 5) g n k (tg, gaps, j)" and j: "j < length tm"
  shows "\<exists>st. grid_loop tm (d / 5) (map (\<lambda>i. (i, g i)) [k..<n]) (tg, gaps, j) = Inr st \<and>
              grid_post tm (d / 5) g n st"
  using kn inv j
proof (induction "n - k" arbitrary: k tg gaps j)
  case 0
  then have "k = n" by simp
  with 0 show ?case by (simp add: grid_post_def)
next
  case (Suc m)
  then have k: "k < n" by simp
  have upt: "[k..<n] = k # [Suc k..<n]" using k by (simp add: upt_conv_Cons)
  have m: "m = n - Suc k" using Suc.hyps(2) by simp
  have kn': "Suc k \<le> n" using k by simp
  show ?case
  proof (cases "\<bar>tm ! j - g k\<bar> < d / 5")
    case hit: True
    note inv' = grid_inv_match[OF Suc.prems(2) k Suc.prems(3) hit]
    show ?thesis
    proof (cases "Suc j = length tm")
      case True
      have ne: "tm \<noteq> []" using Suc.prems(3) by auto
      have "j = length tm - 1" using True by simp
      then have lastj: "tm ! j = last tm" using ne by (simp add: last_conv_nth)
      have "\<bar>last tm - (a + real k * d)\<bar> < d / 5" using hit lastj by (simp add: g_def)
      from last_slot[OF d _ this] k have sk: "Suc k = n" by (simp add: n_def)
      have len: "length tg = n" using Suc.prems(2) by (simp add: grid_inv_def)
      have nk: "n - 1 = k" using sk by simp
      have "tg[k := tm ! j] ! (n - 1) = last tm"
        unfolding nk using len k lastj by simp
      then have "grid_post tm (d / 5) g n (tg[k := tm ! j], gaps, Suc j)"
        using inv' sk True k by (simp add: grid_post_def)
      then show ?thesis using upt hit True Suc.prems(3) by simp
    next
      case False
      then have j': "Suc j < length tm" using Suc.prems(3) by simp
      from Suc.hyps(1)[OF m kn' inv' j'] show ?thesis
        using upt hit False Suc.prems(3) by simp
    qed
  next
    case miss: False
    note inv' = grid_inv_gap[OF Suc.prems(2)]
    from Suc.hyps(1)[OF m kn' inv' Suc.prems(3)] show ?thesis
      using upt miss Suc.prems(3) by simp
  qed
qed


lemma uniform_grid_post:
  assumes med: "median (diff tm) = Some d" and d: "0 < d"
  shows "\<exists>tg gaps j. uniform_grid tm = Inr (tg, gaps, j) \<and>
           grid_post tm (d / 5) (\<lambda>i. hd tm + real i * d)
             (nat \<lceil>(last tm + d / 5 - hd tm) / d\<rceil>) (tg, gaps, j)"
proof -
  let ?g = "\<lambda>i. hd tm + real i * d"
  let ?n = "nat \<lceil>(last tm + d / 5 - hd tm) / d\<rceil>"
  let ?tunif = "map ?g [0..<?n]"
  have ne: "tm \<noteq> []"
    using med by (blast dest: median_Some_nonempty diff_nonempty)
  have ar: "arange (hd tm) (last tm + d / 5) d = Inr ?tunif"
    using d by (simp add: arange_def)
  have zp: "zip [0..<length ?tunif] ?tunif = map (\<lambda>i. (i, ?g i)) [0..<?n]"
    by (simp add: zip_map2 zip_same_conv_map)
  have inv0: "grid_inv tm (d / 5) ?g ?n 0 (?tunif, [], 0)"
    using d by (simp add: grid_inv_def)
  have j0: "0 < length tm" using ne by simp
  from grid_loop_post[OF d _ inv0 j0] obtain st where
    run: "grid_loop tm (d / 5) (map (\<lambda>i. (i, ?g i)) [0..<?n]) (?tunif, [], 0) = Inr st"
    and post: "grid_post tm (d / 5) ?g ?n st"
    by auto
  have "uniform_grid tm = Inr st"
    unfolding uniform_grid_def med Let_def using ne ar run zp by simp
  with post show ?thesis by (cases st) auto
qed

lemma near_grid_increasing:
  assumes d: "0 < (d::real)" and near: "\<forall>i<length tg. \<bar>tg ! i - (a + real i * d)\<bar> < d / 5"
  shows "sorted_wrt (<) tg"
  unfolding sorted_wrt_iff_nth_less
proof (intro allI impI)
  fix i j assume ij: "i < j" and j: "j < length tg"
  then have i: "i < length tg" by simp
  from ij have "real i + 1 \<le> real j" by simp
  then have "(real i + 1) * d \<le> real j * d" using d by (simp only: mult_le_cancel_right_pos)
  then have step: "real i * d + d \<le> real j * d" by (simp add: algebra_simps)
  from near i have "\<bar>tg ! i - (a + real i * d)\<bar> < d / 5" by blast
  then have a: "tg ! i < a + real i * d + d / 5" by linarith
  from near j have "\<bar>tg ! j - (a + real j * d)\<bar> < d / 5" by blast
  then have b: "a + real j * d - d / 5 < tg ! j" by linarith
  from a b step d show "tg ! i < tg ! j" by linarith
qed

lemma py_round_near_nat:
  assumes "\<bar>x - real k\<bar> < 1 / 5"
  shows "py_round x = int k"
proof (cases "real k \<le> x")
  case True
  have k: "real_of_int (int k) = real k" by simp
  from True assms have "real_of_int (int k) \<le> x" "x < real_of_int (int k) + 1"
    unfolding k by linarith+
  then have fl: "\<lfloor>x\<rfloor> = int k" by (rule floor_unique)
  from True assms have "x - real_of_int (int k) < 1 / 2" unfolding k by linarith
  with fl show ?thesis by (simp add: py_round_def Let_def)
next
  case False
  have k: "real_of_int (int k - 1) = real k - 1" by simp
  from False assms have "real_of_int (int k - 1) \<le> x" "x < real_of_int (int k - 1) + 1"
    unfolding k by linarith+
  then have fl: "\<lfloor>x\<rfloor> = int k - 1" by (rule floor_unique)
  from False assms have "1 / 2 < x - real_of_int (int k - 1)" unfolding k by linarith
  with fl have "\<not> x - real_of_int \<lfloor>x\<rfloor> < 1 / 2" "1 / 2 < x - real_of_int \<lfloor>x\<rfloor>" by simp_all
  with fl show ?thesis by (simp add: py_round_def Let_def)
qed

lemma slot_count_py:
  assumes d: "0 < (d::real)" and n: "0 < n"
    and hit: "\<bar>L - (a + real (n - 1) * d)\<bar> < d / 5"
  shows "n = nat (py_round ((L - a) / d)) + 1"
proof -
  have "(L - a) / d - real (n - 1) = (L - (a + real (n - 1) * d)) / d"
    using d by (simp add: field_simps)
  also have "\<bar>\<dots>\<bar> < 1 / 5"
    using hit d by (simp add: abs_less_iff pos_divide_less_eq pos_less_divide_eq)
  finally have "py_round ((L - a) / d) = int (n - 1)" by (rule py_round_near_nat)
  then show ?thesis using n by simp
qed

text \<open>
  C4, amended. GetChunkData has no malformed-grid error. For a chunk with positive median
  spacing the construction of the grid always returns: the observed times are consumed in
  order, each at most once, and the slots that are not gaps hold exactly the first \<open>j\<close>
  observed times, where \<open>j\<close> is the cursor at the end. When the grid is exhausted before
  the cursor has passed every observed time, the remaining times are left out without
  an error.
\<close>

theorem grid_construction_returns:
  assumes med: "median (diff tm) = Some dt" and dt: "0 < dt"
  shows "\<exists>tg gaps j. uniform_grid tm = Inr (tg, gaps, j) \<and> j \<le> length tm \<and>
           length tg = length gaps + j \<and>
           map (\<lambda>i. tg ! i) (filter (\<lambda>i. i \<notin> set gaps) [0..<length tg]) = take j tm"
proof -
  from uniform_grid_post[OF med dt] obtain tg gaps j where
    run: "uniform_grid tm = Inr (tg, gaps, j)"
    and post: "grid_post tm (dt / 5) (\<lambda>i. hd tm + real i * dt)
             (nat \<lceil>(last tm + dt / 5 - hd tm) / dt\<rceil>) (tg, gaps, j)"
    by blast
  from post have "j \<le> length tm" "length tg = length gaps + j"
    "map (\<lambda>i. tg ! i) (filter (\<lambda>i. i \<notin> set gaps) [0..<length tg]) = take j tm"
    by (simp_all add: grid_post_def grid_inv_def)
  with run show ?thesis by blast
qed

lemma grid_points_apart:
  assumes d: "0 < (d::real)" and lt: "(k::nat) < m"
    and a: "\<bar>x - (a + real k * d)\<bar> < d / 5" and b: "\<bar>x - (a + real m * d)\<bar> < d / 5"
  shows False
proof -
  from lt have "real k + 1 \<le> real m" by simp
  then have "(real k + 1) * d \<le> real m * d" using d by (simp only: mult_le_cancel_right_pos)
  then have "real k * d + d \<le> real m * d" by (simp add: algebra_simps)
  with a b d show False by linarith
qed

lemma aligned_index_in_grid:
  fixes tm :: "real list" and d a :: real
  assumes d: "0 < d" and len: "length ix = length tm" and inc: "sorted_wrt (<) ix"
    and near: "\<forall>m<length tm. \<bar>tm ! m - (a + real (ix ! m) * d)\<bar> < d / 5"
    and m: "m < length tm"
  shows "ix ! m < nat \<lceil>(last tm + d / 5 - a) / d\<rceil>"
proof -
  let ?l = "length tm - 1"
  have ne: "tm \<noteq> []" using m by auto
  have l: "?l < length tm" using m by simp
  have lastl: "tm ! ?l = last tm" using ne by (simp add: last_conv_nth)
  have "ix ! m \<le> ix ! ?l"
  proof (cases "m = ?l")
    case True
    then show ?thesis by simp
  next
    case False
    with m have "m < ?l" by simp
    with inc l len have "ix ! m < ix ! ?l" by (simp add: sorted_wrt_iff_nth_less)
    then show ?thesis by simp
  qed
  then have "real (ix ! m) \<le> real (ix ! ?l)" by simp
  then have le: "real (ix ! m) * d \<le> real (ix ! ?l) * d"
    using d by (simp only: mult_le_cancel_right_pos)
  from near l have "\<bar>tm ! ?l - (a + real (ix ! ?l) * d)\<bar> < d / 5" by blast
  with lastl le have "real (ix ! m) * d < last tm + d / 5 - a" by linarith
  then have "real (ix ! m) < (last tm + d / 5 - a) / d"
    using d by (simp add: pos_less_divide_eq)
  then show ?thesis by (simp add: zless_nat_eq_int_zless less_ceiling_iff)
qed

lemma grid_loop_consumes:
  fixes tm :: "real list" and d a :: real
  defines "g \<equiv> \<lambda>i. a + real i * d"
  defines "n \<equiv> nat \<lceil>(last tm + d / 5 - a) / d\<rceil>"
  assumes d: "0 < d" and len: "length ix = length tm" and inc: "sorted_wrt (<) ix"
    and near: "\<forall>m<length tm. \<bar>tm ! m - (a + real (ix ! m) * d)\<bar> < d / 5"
    and kn: "k \<le> n" and j: "j < length tm" and lo: "k \<le> ix ! j"
    and run: "grid_loop tm (d / 5) (map (\<lambda>i. (i, g i)) [k..<n]) (tg, gaps, j) = Inr (tg', gaps', j')"
  shows "j' = length tm"
  using kn j lo run
proof (induction "n - k" arbitrary: k tg gaps j)
  case 0
  then have "k = n" by simp
  with 0 have "n \<le> ix ! j" by simp
  moreover have "ix ! j < n"
    unfolding n_def by (rule aligned_index_in_grid[OF d len inc near "0.prems"(2)])
  ultimately show ?case by simp
next
  case (Suc m)
  then have k: "k < n" by simp
  have upt: "[k..<n] = k # [Suc k..<n]" using k by (simp add: upt_conv_Cons)
  have m: "m = n - Suc k" using Suc.hyps(2) by simp
  have kn': "Suc k \<le> n" using k by simp
  from near Suc.prems(2) have nj: "\<bar>tm ! j - (a + real (ix ! j) * d)\<bar> < d / 5" by blast
  show ?case
  proof (cases "\<bar>tm ! j - g k\<bar> < d / 5")
    case hit: True
    have eq: "ix ! j = k"
    proof (rule ccontr)
      assume "ix ! j \<noteq> k"
      with Suc.prems(3) have "k < ix ! j" by simp
      from grid_points_apart[OF d this _ nj] hit show False by (simp add: g_def)
    qed
    show ?thesis
    proof (cases "Suc j = length tm")
      case True
      with Suc.prems(4) upt hit Suc.prems(2) show ?thesis by simp
    next
      case False
      then have j': "Suc j < length tm" using Suc.prems(2) by simp
      have "ix ! j < ix ! Suc j"
        using inc j' len by (simp add: sorted_wrt_iff_nth_less)
      then have lo': "Suc k \<le> ix ! Suc j" using eq by simp
      from Suc.prems(4) upt hit False Suc.prems(2)
      have run': "grid_loop tm (d / 5) (map (\<lambda>i. (i, g i)) [Suc k..<n])
                    (tg[k := tm ! j], gaps, Suc j) = Inr (tg', gaps', j')"
        by simp
      from Suc.hyps(1)[OF m kn' j' lo' run'] show ?thesis .
    qed
  next
    case miss: False
    have "ix ! j \<noteq> k"
    proof
      assume "ix ! j = k"
      with nj miss show False by (simp add: g_def)
    qed
    with Suc.prems(3) have lo': "Suc k \<le> ix ! j" by simp
    from Suc.prems(4) upt miss Suc.prems(2)
    have run': "grid_loop tm (d / 5) (map (\<lambda>i. (i, g i)) [Suc k..<n])
                  (tg, gaps @ [k], j) = Inr (tg', gaps', j')"
      by simp
    from Suc.hyps(1)[OF m kn' Suc.prems(2) lo' run'] show ?thesis .
  qed
qed


lemma uniform_grid_consumes:
  assumes med: "median (diff tm) = Some d" and d: "0 < d"
    and len: "length ix = length tm" and inc: "sorted_wrt (<) ix"
    and near: "\<forall>m<length tm. \<bar>tm ! m - (hd tm + real (ix ! m) * d)\<bar> < d / 5"
    and run: "uniform_grid tm = Inr (tg, gaps, j)"
  shows "j = length tm"
proof -
  let ?g = "\<lambda>i. hd tm + real i * d"
  let ?n = "nat \<lceil>(last tm + d / 5 - hd tm) / d\<rceil>"
  let ?tunif = "map ?g [0..<?n]"
  have ne: "tm \<noteq> []"
    using med by (blast dest: median_Some_nonempty diff_nonempty)
  have ar: "arange (hd tm) (last tm + d / 5) d = Inr ?tunif"
    using d by (simp add: arange_def)
  have zp: "zip [0..<length ?tunif] ?tunif = map (\<lambda>i. (i, ?g i)) [0..<?n]"
    by (simp add: zip_map2 zip_same_conv_map)
  have "uniform_grid tm = grid_loop tm (d / 5) (map (\<lambda>i. (i, ?g i)) [0..<?n]) (?tunif, [], 0)"
    unfolding uniform_grid_def med Let_def using ne ar zp by simp
  with run have loop: "grid_loop tm (d / 5) (map (\<lambda>i. (i, ?g i)) [0..<?n]) (?tunif, [], 0) =
      Inr (tg, gaps, j)" by simp
  have j0: "0 < length tm" using ne by simp
  show ?thesis
    by (rule grid_loop_consumes[OF d len inc near _ j0 _ loop]) simp_all
qed

text \<open>
  C3, amended. For a chunk with positive median spacing \<open>dt\<close> whose observed times lie, in
  order, each within \<open>dt / 5\<close> of a grid point \<open>first + i * dt\<close> of its own (the indices
  \<open>i\<close> increase strictly along the observed times), the slots that are not gaps hold
  exactly the observed times, in order, one slot each; the grid positions increase
  strictly; and the number of slots is \<open>round((last - first) / dt) + 1\<close>.
\<close>

theorem uniform_grid_holds_observed_times:
  assumes run: "GetChunkData p s chunk joint_fit = Inr (tg, gaps, fl, C)"
    and tm: "tm = map (\<lambda>i. time s ! i) (get_masked_chunk p s chunk)"
    and med: "median (diff tm) = Some dt" and dt: "0 < dt"
    and len: "length ix = length tm" and inc: "sorted_wrt (<) ix"
    and near: "\<forall>m<length tm. \<bar>tm ! m - (hd tm + real (ix ! m) * dt)\<bar> < dt / 5"
  shows "map (\<lambda>i. tg ! i) (filter (\<lambda>i. i \<notin> set gaps) [0..<length tg]) = tm \<and>
         sorted_wrt (<) tg \<and>
         length tg = nat (py_round ((last tm - hd tm) / dt)) + 1"
proof -
  let ?g = "\<lambda>i. hd tm + real i * dt"
  let ?n = "nat \<lceil>(last tm + dt / 5 - hd tm) / dt\<rceil>"
  from run tm obtain j where ug: "uniform_grid tm = Inr (tg, gaps, j)"
    by (auto simp: GetChunkData_def ebind_Inr_iff Let_def dest!: np_take_Inr)
  have j: "j = length tm"
    by (rule uniform_grid_consumes[OF med dt len inc near ug])
  from uniform_grid_post[OF med dt] ug
  have post: "grid_post tm (dt / 5) ?g ?n (tg, gaps, j)" by auto
  then have lentg: "length tg = ?n"
    and pre: "map (\<lambda>i. tg ! i) (filter (\<lambda>i. i \<notin> set gaps) [0..<?n]) = take j tm"
    and nr: "\<forall>i<?n. \<bar>tg ! i - ?g i\<bar> < dt / 5"
    and fin: "j = length tm \<longrightarrow> 0 < ?n \<and> tg ! (?n - 1) = last tm"
    by (simp_all add: grid_post_def grid_inv_def)
  have one: "map (\<lambda>i. tg ! i) (filter (\<lambda>i. i \<notin> set gaps) [0..<length tg]) = tm"
    using pre lentg j by simp
  have two: "sorted_wrt (<) tg"
    by (rule near_grid_increasing[OF dt, of tg "hd tm"]) (use nr lentg in simp)
  from fin j have n0: "0 < ?n" and lst: "tg ! (?n - 1) = last tm" by blast+
  from nr n0 have "\<bar>tg ! (?n - 1) - ?g (?n - 1)\<bar> < dt / 5" by simp
  then have "\<bar>last tm - (hd tm + real (?n - 1) * dt)\<bar> < dt / 5" using lst by simp
  from slot_count_py[OF dt n0 this]
  have three: "length tg = nat (py_round ((last tm - hd tm) / dt)) + 1"
    using lentg by simp
  from one two three show ?thesis by blast
qed

lemma upt_5: "[0..<5] = [0, 1, 2, 3, 4]"
  by (simp add: upt_rec)

lemma median_offgrid: "median (diff [0, 1, 2, 18 / 5]) = Some 1"
  by (simp add: median_def Let_def)

lemma median_gap: "median (diff [0, 1, 2, 4]) = Some 1"
  by (simp add: median_def Let_def)

lemma uniform_grid_offgrid: "uniform_grid [0, 1, 2, 18 / 5] = Inr ([0, 1, 2, 3], [3], 3)"
proof -
  have c: "\<lceil>19 / 5 :: real\<rceil> = 4" by linarith
  show ?thesis
    unfolding uniform_grid_def median_offgrid Let_def
    by (simp add: arange_def c upt_4)
qed

lemma uniform_grid_gap: "uniform_grid [0, 1, 2, 4] = Inr ([0, 1, 2, 3, 4], [3], 4)"
proof -
  have c: "\<lceil>21 / 5 :: real\<rceil> = 5" by linarith
  show ?thesis
    unfolding uniform_grid_def median_gap Let_def
    by (simp add: arange_def c upt_5)
qed

lemma GetChunkData_offgrid:
  "GetChunkData demo_providers offgrid_star 0 False =
     Inr ([0, 1, 2, 3], [3], [Fin 2, Fin 2, Fin 2, Fin 2], I4)"
  by (simp add: GetChunkData_def demo_providers_def offgrid_star_def demo_star_def upt_4
      np_take_def uniform_grid_offgrid I4_def)

lemma GetChunkData_gap:
  "GetChunkData demo_providers gap_star 0 False =
     Inr ([0, 1, 2, 3, 4], [3], [Fin 2, Fin 2, Fin 2, Fin 2], I4)"
  by (simp add: GetChunkData_def demo_providers_def gap_star_def offgrid_star_def demo_star_def
      upt_4 np_take_def uniform_grid_gap I4_def)


text \<open>
  C3 as stated fails. For the observed times 0, 1, 2, 3.6 the median spacing is 1 and
  the grid is 0, 1, 2, 3 with slot 3 a gap: the slots that are not gaps hold 0, 1, 2,
  not the observed times, and there are 4 slots, not \<open>round(3.6) + 1 = 5\<close>.
\<close>

theorem uniform_grid_offgrid_counterexample:
  "GetChunkData demo_providers offgrid_star 0 False =
     Inr ([0, 1, 2, 3], [3], [Fin 2, Fin 2, Fin 2, Fin 2], I4) \<and>
   map (\<lambda>i. time offgrid_star ! i) (get_masked_chunk demo_providers offgrid_star 0) =
     [0, 1, 2, 18 / 5] \<and>
   map (\<lambda>i. [0, 1, 2, 3 :: real] ! i) (filter (\<lambda>i. i \<notin> set [3]) [0..<length [0, 1, 2, 3 :: real]])
     \<noteq> [0, 1, 2, 18 / 5] \<and>
   length [0, 1, 2, 3 :: real] \<noteq> nat (round ((18 / 5 - 0) / 1 :: real)) + 1 \<and>
   length [0, 1, 2, 3 :: real] \<noteq> nat (py_round ((18 / 5 - 0) / 1)) + 1"
proof -
  have m: "map (\<lambda>i. time offgrid_star ! i) (get_masked_chunk demo_providers offgrid_star 0) =
     [0, 1, 2, 18 / 5]"
    by (simp add: demo_providers_def offgrid_star_def demo_star_def upt_4)
  have ng: "map (\<lambda>i. [0, 1, 2, 3 :: real] ! i)
      (filter (\<lambda>i. i \<notin> set [3]) [0..<length [0, 1, 2, 3 :: real]]) \<noteq> [0, 1, 2, 18 / 5]"
    by (simp add: upt_4)
  have f: "\<lfloor>18 / 5 :: real\<rfloor> = 3" by linarith
  have f2: "\<lfloor>18 / 5 + 1 / 2 :: real\<rfloor> = 4" by linarith
  have r: "round ((18 / 5 - 0) / 1 :: real) = 4"
    using f2 by (simp add: round_def)
  have pr: "py_round ((18 / 5 - 0) / 1) = 4"
    by (simp add: py_round_def Let_def f)
  from GetChunkData_offgrid m ng r pr show ?thesis by simp
qed

text \<open>
  C4 as stated fails. For the observed times 0, 1, 2, 3.6 the grid is exhausted with the
  cursor at 3 of 4 observed times, and GetChunkData returns a grid that omits 3.6
  instead of raising.
\<close>

theorem unconsumed_times_counterexample:
  "GetChunkData demo_providers offgrid_star 0 False =
     Inr ([0, 1, 2, 3], [3], [Fin 2, Fin 2, Fin 2, Fin 2], I4) \<and>
   uniform_grid (map (\<lambda>i. time offgrid_star ! i) (get_masked_chunk demo_providers offgrid_star 0)) =
     Inr ([0, 1, 2, 3], [3], 3) \<and>
   3 < length (map (\<lambda>i. time offgrid_star ! i) (get_masked_chunk demo_providers offgrid_star 0)) \<and>
   18 / 5 \<notin> set [0, 1, 2, 3 :: real]"
proof -
  have m: "map (\<lambda>i. time offgrid_star ! i) (get_masked_chunk demo_providers offgrid_star 0) =
     [0, 1, 2, 18 / 5]"
    by (simp add: demo_providers_def offgrid_star_def demo_star_def upt_4)
  show ?thesis
    unfolding m using GetChunkData_offgrid uniform_grid_offgrid by simp
qed

theorem grid_construction_returns_witness:
  "\<exists>tg gaps j. uniform_grid [0, 1, 2, 18 / 5] = Inr (tg, gaps, j) \<and>
      j \<le> length [0, 1, 2, 18 / 5 :: real] \<and> length tg = length gaps + j \<and>
      map (\<lambda>i. tg ! i) (filter (\<lambda>i. i \<notin> set gaps) [0..<length tg]) =
        take j [0, 1, 2, 18 / 5]"
proof -
  have dt: "(0::real) < 1" by simp
  from grid_construction_returns[OF median_offgrid dt] show ?thesis .
qed

theorem uniform_grid_holds_observed_times_witness:
  "map (\<lambda>i. [0, 1, 2, 3, 4 :: real] ! i)
     (filter (\<lambda>i. i \<notin> set [3]) [0..<length [0, 1, 2, 3, 4 :: real]]) = [0, 1, 2, 4] \<and>
   sorted_wrt (<) [0, 1, 2, 3, 4 :: real] \<and>
   length [0, 1, 2, 3, 4 :: real] = nat (py_round ((last [0, 1, 2, 4] - hd [0, 1, 2, 4]) / 1)) + 1"
proof -
  have m: "[0, 1, 2, 4] = map (\<lambda>i. time gap_star ! i) (get_masked_chunk demo_providers gap_star 0)"
    by (simp add: demo_providers_def gap_star_def offgrid_star_def demo_star_def upt_4)
  have dt: "(0::real) < 1" by simp
  have len: "length [0, 1, 2, 4 :: nat] = length [0, 1, 2, 4 :: real]" by simp
  have inc: "sorted_wrt (<) [0, 1, 2, 4 :: nat]" by simp
  have near: "\<forall>m<length [0, 1, 2, 4 :: real].
      \<bar>[0, 1, 2, 4] ! m - (hd [0, 1, 2, 4] + real ([0, 1, 2, 4] ! m) * 1)\<bar> < 1 / 5"
  proof (intro allI impI)
    fix m :: nat assume "m < length [0, 1, 2, 4 :: real]"
    then have "m = 0 \<or> m = 1 \<or> m = 2 \<or> m = 3" by auto
    then show "\<bar>[0, 1, 2, 4] ! m - (hd [0, 1, 2, 4] + real ([0, 1, 2, 4] ! m) * 1)\<bar> < 1 / 5"
      by auto
  qed
  from uniform_grid_holds_observed_times[OF GetChunkData_gap m median_gap dt len inc near]
  show ?thesis .
qed

end
